theory Spec2Isabelle
  imports Complex_Main "HOL-Library.AList" "HOL-Library.List_Lexorder"
begin

section \<open>JavaScript values\<close>

text \<open>
  The application (class \<open>LifeAtlas\<close> of \<open>js/app.js\<close>) keeps its memories as plain
  JavaScript values: records it builds itself in \<open>saveMemory\<close>, and whatever
  \<open>JSON.parse\<close> returned on load and on import. A string is its list of UTF-16 code
  units, which is what \<open>length\<close>, \<open>substring\<close>, \<open>trim\<close> and \<open><\<close> work on. Numbers
  are only compared and passed on, never computed with; they are reals here. An object
  lists its own properties, each name once.

  The embedding covers the store: the collection, the marker cache, the layers on the
  map, the storage and the notices, under every handler that touches them. Markup,
  styling, the welcome message, the random jump and the statistics are left out.
\<close>

type_synonym jsstring = "nat list"

definition js :: "string \<Rightarrow> jsstring" where
  "js s = map of_char s"

datatype jsval =
    JUndefined
  | JNull
  | JBool bool
  | JNum real
  | JStr jsstring
  | JArr "jsval list"
  | JObj "(string \<times> jsval) list"

datatype exn = TypeError | SyntaxError | InvalidFileFormat | MapError

text \<open>
  Reading a property \<open>v.k\<close> throws a TypeError on \<open>null\<close> and \<open>undefined\<close>. The code
  reads only \<open>id\<close>, \<open>title\<close>, \<open>date\<close>, \<open>description\<close>, \<open>mood\<close>, \<open>lat\<close>, \<open>lng\<close> and
  \<open>createdAt\<close>, none of which a prototype supplies, so every value that is not an
  object gives \<open>undefined\<close>.
\<close>

fun nullish :: "jsval \<Rightarrow> bool" where
  "nullish JUndefined = True"
| "nullish JNull = True"
| "nullish v = False"

fun field :: "string \<Rightarrow> jsval \<Rightarrow> jsval" where
  "field k (JObj kvs) = (case map_of kvs k of None \<Rightarrow> JUndefined | Some v \<Rightarrow> v)"
| "field k v = JUndefined"

definition getProp :: "jsval \<Rightarrow> string \<Rightarrow> exn + jsval" where
  "getProp v k = (if nullish v then Inl TypeError else Inr (field k v))"

text \<open>Truthiness, as tested by \<open>!memory\<close>.\<close>

fun truthy :: "jsval \<Rightarrow> bool" where
  "truthy JUndefined = False"
| "truthy JNull = False"
| "truthy (JBool b) = b"
| "truthy (JNum n) = (n \<noteq> 0)"
| "truthy (JStr s) = (s \<noteq> [])"
| "truthy v = True"

text \<open>
  \<open>a === b\<close> and the key comparison of \<open>Map\<close>. Primitives compare by value. Objects and
  arrays compare by identity in JavaScript; here they compare by structure, which agrees
  whenever both sides are the same object, as the id of a record and the key stored for
  it are.
\<close>

definition strictEq :: "jsval \<Rightarrow> jsval \<Rightarrow> bool" where
  "strictEq a b = (a = b)"

text \<open>
  Converting a value to a string (template literals, \<open>setAttribute\<close>, \<open>textContent\<close>,
  \<open>value\<close>, \<open>new Date\<close>) throws a TypeError exactly when it reaches a parsed object
  that has an own property \<open>toString\<close>, which cannot be a function.
\<close>

fun stringifies :: "jsval \<Rightarrow> bool" where
  "stringifies (JObj kvs) = (map_of kvs ''toString'' = None)"
| "stringifies (JArr xs) = list_all stringifies xs"
| "stringifies v = True"

text \<open>\<open>String.prototype.trim\<close>: white space and line terminators of ECMAScript.\<close>

definition isWhiteSpace :: "nat \<Rightarrow> bool" where
  "isWhiteSpace c =
     (c \<in> {9, 10, 11, 12, 13, 32, 160, 5760, 8232, 8233, 8239, 8287, 12288, 65279}
      \<or> (8192 \<le> c \<and> c \<le> 8202))"

definition trim :: "jsstring \<Rightarrow> jsstring" where
  "trim s = rev (dropWhile isWhiteSpace (rev (dropWhile isWhiteSpace s)))"

section \<open>The application state\<close>

text \<open>
  A marker is a Leaflet object: \<open>ref\<close> is its identity, the rest is what
  \<open>addPinToMap\<close> built it from. The popup keeps the values the template interpolates
  (title, mood, excerpt, id); the markup around them is presentation.
\<close>

datatype popup = Popup jsval jsval jsstring jsval

record marker =
  ref :: nat
  latlng :: "jsval \<times> jsval"
  iconMood :: jsval
  popupContent :: popup

datatype notice =
    AlertRequiredFields
  | ToastSaved
  | ToastDeleted
  | ToastStorageFailed
  | ToastAddMode
  | ToastShowing nat nat
  | ToastExported
  | ToastImported nat
  | ToastImportFailed

text \<open>
  The fields of \<open>LifeAtlas\<close>. \<open>pins\<close> is the \<open>Map\<close> from id to marker, in insertion
  order. \<open>layers\<close> holds the markers that are on \<open>this.map\<close>, \<open>nextRef\<close> the identity
  of the next marker object, \<open>storage\<close> the collection last written under
  \<open>lifeAtlasMemories\<close>, \<open>notices\<close> every alert and toast shown so far.
\<close>

record atlas =
  memories :: "jsval list"
  pins :: "(jsval \<times> marker) list"
  layers :: "nat set"
  nextRef :: nat
  currentPin :: "(jsval \<times> jsval) option"
  addingMemory :: bool
  currentMemoryId :: jsval
  editingMemory :: bool
  storage :: "jsval list option"
  notices :: "notice list"

text \<open>
  What the browser and the libraries decide: whether Leaflet accepts a coordinate pair
  for a marker, the outcome of \<open><\<close> and \<open>>\<close> when the left operand is not a string
  (both sides are then coerced), and whether \<open>localStorage\<close> has room for a
  collection.
\<close>

record host =
  latLngOk :: "jsval \<Rightarrow> jsval \<Rightarrow> bool"
  coercedLt :: "jsval \<Rightarrow> jsstring \<Rightarrow> exn + bool"
  coercedGt :: "jsval \<Rightarrow> jsstring \<Rightarrow> exn + bool"
  quotaOk :: "jsval list \<Rightarrow> bool"

text \<open>
  A method either returns or throws; in both cases the fields keep what was assigned
  up to that point.
\<close>

datatype result = Ok atlas | Throw exn atlas

fun state_of :: "result \<Rightarrow> atlas" where
  "state_of (Ok s) = s"
| "state_of (Throw e s) = s"

fun returns :: "result \<Rightarrow> bool" where
  "returns (Ok s) = True"
| "returns (Throw e s) = False"

definition andThen :: "result \<Rightarrow> (atlas \<Rightarrow> result) \<Rightarrow> result" where
  "andThen r f = (case r of Ok s \<Rightarrow> f s | Throw e s \<Rightarrow> Throw e s)"

definition showToast :: "notice \<Rightarrow> atlas \<Rightarrow> atlas" where
  "showToast n s = s\<lparr>notices := notices s @ [n]\<rparr>"

section \<open>Looking a memory up by id\<close>

text \<open>
  \<open>this.memories.find(m => m.id === id)\<close> and \<open>findIndex\<close> with the same callback.
  The callback throws on a \<open>null\<close> element met before a match. \<open>find\<close> gives
  \<open>undefined\<close> and \<open>findIndex\<close> gives -1 (here \<open>None\<close>) when nothing matches.
\<close>

fun find_id :: "jsval list \<Rightarrow> jsval \<Rightarrow> exn + jsval" where
  "find_id [] x = Inr JUndefined"
| "find_id (m # ms) x =
     (case getProp m ''id'' of
        Inl e \<Rightarrow> Inl e
      | Inr v \<Rightarrow> if strictEq v x then Inr m else find_id ms x)"

fun findIndex_id :: "jsval list \<Rightarrow> jsval \<Rightarrow> exn + nat option" where
  "findIndex_id [] x = Inr None"
| "findIndex_id (m # ms) x =
     (case getProp m ''id'' of
        Inl e \<Rightarrow> Inl e
      | Inr v \<Rightarrow>
          if strictEq v x then Inr (Some 0)
          else (case findIndex_id ms x of
                  Inl e \<Rightarrow> Inl e
                | Inr None \<Rightarrow> Inr None
                | Inr (Some i) \<Rightarrow> Inr (Some (Suc i))))"

section \<open>Storage and markers\<close>

definition saveToStorage :: "host \<Rightarrow> atlas \<Rightarrow> atlas" where
  "saveToStorage H s =
     (if quotaOk H (memories s) then s\<lparr>storage := Some (memories s)\<rparr>
      else showToast ToastStorageFailed s)"

text \<open>
  \<open>createPopupContent\<close>, called on a memory that is not \<open>null\<close>:
  \<open>memory.description.substring(0, 100)\<close> needs a string.
\<close>

definition createPopupContent :: "jsval \<Rightarrow> exn + popup" where
  "createPopupContent memory =
     (case field ''description'' memory of
        JStr d \<Rightarrow>
          (let excerpt = take 100 d @ (if length d > 100 then js ''...'' else [])
           in if stringifies (field ''title'' memory) \<and> stringifies (field ''mood'' memory)
                 \<and> stringifies (field ''id'' memory)
              then Inr (Popup (field ''title'' memory) (field ''mood'' memory) excerpt
                          (field ''id'' memory))
              else Inl TypeError)
      | _ \<Rightarrow> Inl TypeError)"

text \<open>
  \<open>addPinToMap\<close>: the marker is put on the map before its popup is built and before it
  is entered in \<open>pins\<close>. \<open>latLngOk\<close> stands for Leaflet accepting the pair when it
  constructs the marker, before any layer is added; a failure inside Leaflet later than
  that is not represented.
\<close>

definition addPinToMap :: "host \<Rightarrow> jsval \<Rightarrow> atlas \<Rightarrow> result" where
  "addPinToMap H memory s =
     (if nullish memory then Throw TypeError s
      else if \<not> stringifies (field ''mood'' memory) then Throw TypeError s
      else if \<not> latLngOk H (field ''lat'' memory) (field ''lng'' memory) then Throw MapError s
      else
        (let r = nextRef s;
             s1 = s\<lparr>nextRef := Suc r, layers := insert r (layers s)\<rparr>
         in case createPopupContent memory of
              Inl e \<Rightarrow> Throw e s1
            | Inr content \<Rightarrow>
                Ok (s1\<lparr>pins := AList.update (field ''id'' memory)
                                 \<lparr>ref = r,
                                  latlng = (field ''lat'' memory, field ''lng'' memory),
                                  iconMood = field ''mood'' memory,
                                  popupContent = content\<rparr>
                                 (pins s1)\<rparr>)))"

text \<open>\<open>loadMemories\<close>: \<open>this.memories.forEach(memory => this.addPinToMap(memory))\<close>.\<close>

fun addPins :: "host \<Rightarrow> jsval list \<Rightarrow> atlas \<Rightarrow> result" where
  "addPins H [] s = Ok s"
| "addPins H (m # ms) s = andThen (addPinToMap H m s) (addPins H ms)"

definition loadMemories :: "host \<Rightarrow> atlas \<Rightarrow> result" where
  "loadMemories H s = addPins H (memories s) s"

section \<open>Creating, editing and deleting\<close>

definition createMemoryAt :: "real \<times> real \<Rightarrow> atlas \<Rightarrow> atlas" where
  "createMemoryAt p s =
     s\<lparr>currentPin := Some (JNum (fst p), JNum (snd p)), addingMemory := False\<rparr>"

text \<open>The map click handler acts only in adding mode, which \<open>addMemoryMode\<close> toggles.\<close>

definition addMemoryMode :: "atlas \<Rightarrow> atlas" where
  "addMemoryMode s =
     (if addingMemory s then s\<lparr>addingMemory := False\<rparr>
      else showToast ToastAddMode (s\<lparr>addingMemory := True\<rparr>))"

definition mapClick :: "real \<times> real \<Rightarrow> atlas \<Rightarrow> atlas" where
  "mapClick p s = (if addingMemory s then createMemoryAt p s else s)"

definition closeModal :: "atlas \<Rightarrow> atlas" where
  "closeModal s = s\<lparr>currentPin := None, editingMemory := False, currentMemoryId := JNull\<rparr>"

definition closeDetailModal :: "atlas \<Rightarrow> atlas" where
  "closeDetailModal s = s\<lparr>currentMemoryId := JNull\<rparr>"

text \<open>
  The form as it is when submitted. \<open>selectedMood\<close> is \<open>None\<close> when no mood option is
  selected and otherwise the \<open>data-mood\<close> of the selected one.
\<close>

record form =
  memoryTitle :: jsstring
  memoryDate :: jsstring
  memoryDescription :: jsstring
  selectedMood :: "jsval option"

text \<open>The default mood, U+1F4CD, as its two code units.\<close>

definition pinSymbol :: jsstring where
  "pinSymbol = [55357, 56525]"

definition newMemory ::
  "jsval \<Rightarrow> jsstring \<Rightarrow> jsstring \<Rightarrow> jsstring \<Rightarrow> jsval \<Rightarrow> jsval \<times> jsval \<Rightarrow> jsval \<Rightarrow> jsval" where
  "newMemory i title date description mood pin createdAt =
     JObj [(''id'', i), (''title'', JStr title), (''date'', JStr date),
           (''description'', JStr description), (''mood'', mood),
           (''lat'', fst pin), (''lng'', snd pin), (''createdAt'', createdAt)]"

text \<open>
  \<open>saveMemory\<close>. \<open>now\<close> is what \<open>Date.now()\<close> returns and \<open>isoNow\<close> what
  \<open>new Date().toISOString()\<close> returns at the submission.
\<close>

definition saveMemory :: "host \<Rightarrow> int \<Rightarrow> jsstring \<Rightarrow> form \<Rightarrow> atlas \<Rightarrow> result" where
  "saveMemory H now isoNow f s =
     (let title = trim (memoryTitle f);
          date = memoryDate f;
          description = trim (memoryDescription f);
          mood = (case selectedMood f of Some m \<Rightarrow> m | None \<Rightarrow> JStr pinSymbol)
      in if title = [] \<or> date = [] \<or> description = [] then Ok (showToast AlertRequiredFields s)
         else
           (case currentPin s of
              None \<Rightarrow> Throw TypeError s
            | Some pin \<Rightarrow>
                (case (if editingMemory s
                       then (case find_id (memories s) (currentMemoryId s) of
                               Inl e \<Rightarrow> Inl e
                             | Inr m \<Rightarrow> getProp m ''createdAt'')
                       else Inr (JStr isoNow)) of
                   Inl e \<Rightarrow> Throw e s
                 | Inr createdAt \<Rightarrow>
                     (let memory = newMemory (if editingMemory s then currentMemoryId s
                                              else JNum (of_int now))
                                     title date description mood pin createdAt
                      in andThen
                           (if editingMemory s
                            then (case findIndex_id (memories s) (currentMemoryId s) of
                                    Inl e \<Rightarrow> Throw e s
                                  | Inr index \<Rightarrow>
                                      (let s1 = s\<lparr>memories :=
                                                   (case index of
                                                      None \<Rightarrow> memories s
                                                    | Some i \<Rightarrow> (memories s)[i := memory])\<rparr>
                                       in case map_of (pins s1) (currentMemoryId s1) of
                                            None \<Rightarrow> Throw TypeError s1
                                          | Some mk \<Rightarrow> Ok (s1\<lparr>layers := layers s1 - {ref mk}\<rparr>)))
                            else Ok (s\<lparr>memories := memories s @ [memory]\<rparr>))
                           (\<lambda>s2. andThen (addPinToMap H memory (saveToStorage H s2))
                                   (\<lambda>s3. Ok (showToast ToastSaved (closeModal s3))))))))"

text \<open>\<open>showMemoryDetail\<close>: the detail view renders five fields, then records the id.\<close>

definition showMemoryDetail :: "jsval \<Rightarrow> atlas \<Rightarrow> result" where
  "showMemoryDetail memoryId s =
     (case find_id (memories s) memoryId of
        Inl e \<Rightarrow> Throw e s
      | Inr memory \<Rightarrow>
          if \<not> truthy memory then Ok s
          else if list_all (\<lambda>k. stringifies (field k memory))
                    [''title'', ''date'', ''mood'', ''createdAt'', ''description'']
          then Ok (s\<lparr>currentMemoryId := memoryId\<rparr>)
          else Throw TypeError s)"

text \<open>
  \<open>editMemory\<close>: sets the pin and the editing flag, fills the form, and closes the
  detail view, which clears \<open>currentMemoryId\<close>.
\<close>

definition editMemory :: "atlas \<Rightarrow> result" where
  "editMemory s =
     (case find_id (memories s) (currentMemoryId s) of
        Inl e \<Rightarrow> Throw e s
      | Inr memory \<Rightarrow>
          if \<not> truthy memory then Ok s
          else
            (let s1 = s\<lparr>currentPin := Some (field ''lat'' memory, field ''lng'' memory),
                        editingMemory := True\<rparr>
             in if list_all (\<lambda>k. stringifies (field k memory))
                     [''title'', ''date'', ''description'']
                then Ok (closeDetailModal s1)
                else Throw TypeError s1))"

text \<open>\<open>deleteMemory\<close>; \<open>confirmed\<close> is the answer to the \<open>confirm\<close> dialog.\<close>

definition deleteMemory :: "host \<Rightarrow> bool \<Rightarrow> atlas \<Rightarrow> result" where
  "deleteMemory H confirmed s =
     (if confirmed
      then (case findIndex_id (memories s) (currentMemoryId s) of
              Inl e \<Rightarrow> Throw e s
            | Inr None \<Rightarrow> Ok s
            | Inr (Some index) \<Rightarrow>
                (case map_of (pins s) (currentMemoryId s) of
                   None \<Rightarrow> Throw TypeError s
                 | Some mk \<Rightarrow>
                     Ok (showToast ToastDeleted
                           (closeDetailModal
                              (saveToStorage H
                                 (s\<lparr>layers := layers s - {ref mk},
                                    pins := AList.delete (currentMemoryId s) (pins s),
                                    memories := take index (memories s)
                                                @ drop (Suc index) (memories s)\<rparr>))))))
      else Ok s)"

section \<open>Filtering\<close>

record filters =
  moodFilter :: jsstring
  dateFromFilter :: jsstring
  dateToFilter :: jsstring

text \<open>\<open>a < b\<close> and \<open>a > b\<close> with a string on the right: two strings compare by code units.\<close>

definition js_lt :: "host \<Rightarrow> jsval \<Rightarrow> jsstring \<Rightarrow> exn + bool" where
  "js_lt H a b = (case a of JStr x \<Rightarrow> Inr (x < b) | _ \<Rightarrow> coercedLt H a b)"

definition js_gt :: "host \<Rightarrow> jsval \<Rightarrow> jsstring \<Rightarrow> exn + bool" where
  "js_gt H a b = (case a of JStr x \<Rightarrow> Inr (b < x) | _ \<Rightarrow> coercedGt H a b)"

text \<open>
  The value of \<open>show\<close> for one pin. An empty filter field is falsy, so its test is
  skipped and \<open>memory\<close> is not read for it.
\<close>

definition showPin :: "host \<Rightarrow> filters \<Rightarrow> jsval \<Rightarrow> exn + bool" where
  "showPin H f memory =
     (if (moodFilter f \<noteq> [] \<or> dateFromFilter f \<noteq> [] \<or> dateToFilter f \<noteq> []) \<and> nullish memory
      then Inl TypeError
      else
        (case (if dateFromFilter f \<noteq> [] then js_lt H (field ''date'' memory) (dateFromFilter f)
               else Inr False) of
           Inl e \<Rightarrow> Inl e
         | Inr tooEarly \<Rightarrow>
             (case (if dateToFilter f \<noteq> [] then js_gt H (field ''date'' memory) (dateToFilter f)
                    else Inr False) of
                Inl e \<Rightarrow> Inl e
              | Inr tooLate \<Rightarrow>
                  Inr (\<not> (moodFilter f \<noteq> [] \<and> \<not> strictEq (field ''mood'' memory) (JStr (moodFilter f)))
                       \<and> \<not> tooEarly \<and> \<not> tooLate))))"

text \<open>
  The loop \<open>this.pins.forEach((marker, id) => ...)\<close> of \<open>applyFilters\<close>, with
  \<open>filteredCount\<close> as an argument. It reads \<open>this.memories\<close> and changes only the layers.
\<close>

fun filterPins :: "host \<Rightarrow> filters \<Rightarrow> (jsval \<times> marker) list \<Rightarrow> nat \<Rightarrow> atlas \<Rightarrow> (exn + nat) \<times> atlas" where
  "filterPins H f [] filteredCount s = (Inr filteredCount, s)"
| "filterPins H f (p # ps) filteredCount s =
     (case find_id (memories s) (fst p) of
        Inl e \<Rightarrow> (Inl e, s)
      | Inr memory \<Rightarrow>
          (case showPin H f memory of
             Inl e \<Rightarrow> (Inl e, s)
           | Inr True \<Rightarrow>
               filterPins H f ps (Suc filteredCount) (s\<lparr>layers := insert (ref (snd p)) (layers s)\<rparr>)
           | Inr False \<Rightarrow>
               filterPins H f ps filteredCount (s\<lparr>layers := layers s - {ref (snd p)}\<rparr>)))"

definition applyFilters :: "host \<Rightarrow> filters \<Rightarrow> atlas \<Rightarrow> result" where
  "applyFilters H f s =
     (case filterPins H f (pins s) 0 s of
        (Inl e, s1) \<Rightarrow> Throw e s1
      | (Inr filteredCount, s1) \<Rightarrow>
          Ok (showToast (ToastShowing filteredCount (length (memories s1))) s1))"

section \<open>Export and import\<close>

text \<open>
  The file that is downloaded and uploaded again holds JSON text. \<open>JSON.stringify\<close> and
  \<open>JSON.parse\<close> are taken as ECMAScript defines them, on the document a text denotes:
  white space, the indentation asked for by the third argument of \<open>stringify\<close>, and
  the escapes inside strings are the same on both sides and are left out. A text is
  either a JSON document or not JSON at all.
\<close>

datatype json =
    JsonNull
  | JsonBool bool
  | JsonNum real
  | JsonStr jsstring
  | JsonArr "json list"
  | JsonObj "(string \<times> json) list"

datatype jsontext = Malformed | Document json

text \<open>
  \<open>SerializeJSONProperty\<close>: \<open>undefined\<close> has no serialisation. An array writes \<open>null\<close>
  for such an element, an object leaves such a property out.
\<close>

fun JSON_value :: "jsval \<Rightarrow> json option" where
  "JSON_value JUndefined = None"
| "JSON_value JNull = Some JsonNull"
| "JSON_value (JBool b) = Some (JsonBool b)"
| "JSON_value (JNum n) = Some (JsonNum n)"
| "JSON_value (JStr s) = Some (JsonStr s)"
| "JSON_value (JArr xs) =
     Some (JsonArr (map (\<lambda>x. case JSON_value x of None \<Rightarrow> JsonNull | Some j \<Rightarrow> j) xs))"
| "JSON_value (JObj kvs) =
     Some (JsonObj (concat (map (\<lambda>kv. case JSON_value (snd kv) of
                                         None \<Rightarrow> []
                                       | Some j \<Rightarrow> [(fst kv, j)]) kvs)))"

text \<open>
  \<open>JSON.stringify(undefined)\<close> is \<open>undefined\<close>, and a file made from it holds the word
  \<open>undefined\<close>, which is not JSON.
\<close>

definition JSON_stringify :: "jsval \<Rightarrow> jsontext" where
  "JSON_stringify v = (case JSON_value v of None \<Rightarrow> Malformed | Some j \<Rightarrow> Document j)"

text \<open>
  \<open>JSON.parse\<close> throws a SyntaxError on a text that is not JSON. When an object
  repeats a name, the property keeps its first place and takes the last value.
\<close>

definition lastWins :: "(string \<times> jsval) list \<Rightarrow> (string \<times> jsval) list" where
  "lastWins kvs = foldl (\<lambda>props kv. AList.update (fst kv) (snd kv) props) [] kvs"

fun parsedValue :: "json \<Rightarrow> jsval" where
  "parsedValue JsonNull = JNull"
| "parsedValue (JsonBool b) = JBool b"
| "parsedValue (JsonNum n) = JNum n"
| "parsedValue (JsonStr s) = JStr s"
| "parsedValue (JsonArr items) = JArr (map parsedValue items)"
| "parsedValue (JsonObj kjs) = JObj (lastWins (map (\<lambda>kj. (fst kj, parsedValue (snd kj))) kjs))"

definition JSON_parse :: "jsontext \<Rightarrow> exn + jsval" where
  "JSON_parse t = (case t of Malformed \<Rightarrow> Inl SyntaxError | Document j \<Rightarrow> Inr (parsedValue j))"


text \<open>
  \<open>importMemories\<close>, from the moment the file has been read. \<open>parsed\<close> is what
  \<open>JSON.parse\<close> did with the text of the file: the exception it threw or the value it
  returned. \<open>importTry\<close> is the \<open>try\<close> block; \<open>importMemories\<close> adds the \<open>catch\<close>,
  which shows the failure toast over whatever state the exception left.
\<close>

definition importTry :: "host \<Rightarrow> exn + jsval \<Rightarrow> atlas \<Rightarrow> result" where
  "importTry H parsed s =
     (case parsed of
        Inl e \<Rightarrow> Throw e s
      | Inr (JArr importedMemories) \<Rightarrow>
          andThen
            (loadMemories H
               (saveToStorage H
                  (s\<lparr>layers := layers s - ref ` snd ` set (pins s),
                     pins := [],
                     memories := importedMemories\<rparr>)))
            (\<lambda>s1. Ok (showToast (ToastImported (length importedMemories)) s1))
      | Inr v \<Rightarrow> Throw InvalidFileFormat s)"

definition importMemories :: "host \<Rightarrow> exn + jsval \<Rightarrow> atlas \<Rightarrow> atlas" where
  "importMemories H parsed s =
     (case importTry H parsed s of
        Ok s1 \<Rightarrow> s1
      | Throw e s1 \<Rightarrow> showToast ToastImportFailed s1)"

section \<open>The ids of a collection\<close>

text \<open>What \<open>m.id\<close> gives on each element of a collection, a TypeError included.\<close>

definition ids :: "jsval list \<Rightarrow> (exn + jsval) list" where
  "ids ms = map (\<lambda>m. getProp m ''id'') ms"

text \<open>
  The key set of the marker cache equals the set of ids of the collection, and no two
  records share an id.
\<close>

definition mirrors :: "atlas \<Rightarrow> bool" where
  "mirrors s =
     (distinct (ids (memories s)) \<and> Inr ` fst ` set (pins s) = set (ids (memories s)))"

section \<open>Sequences of operations\<close>

text \<open>
  The events the application handles, with what the browser supplies to each: the
  clicked position, the clock and the form at a submission, the id of the popup
  button, the answer to the confirmation, the filter fields, the parsed file.
\<close>

datatype event =
    AddMode
  | MapClick "real \<times> real"
  | Submit int jsstring form
  | Detail jsval
  | Edit
  | CloseDetail
  | CloseForm
  | Delete bool
  | Filter filters
  | Import "exn + jsval"

fun perform :: "host \<Rightarrow> event \<Rightarrow> atlas \<Rightarrow> result" where
  "perform H AddMode s = Ok (addMemoryMode s)"
| "perform H (MapClick p) s = Ok (mapClick p s)"
| "perform H (Submit now isoNow f) s = saveMemory H now isoNow f s"
| "perform H (Detail memoryId) s = showMemoryDetail memoryId s"
| "perform H Edit s = editMemory s"
| "perform H CloseDetail s = Ok (closeDetailModal s)"
| "perform H CloseForm s = Ok (closeModal s)"
| "perform H (Delete confirmed) s = deleteMemory H confirmed s"
| "perform H (Filter f) s = applyFilters H f s"
| "perform H (Import parsed) s = importTry H parsed s"

text \<open>
  The state an event leaves behind, whether its handler returned or threw; the import
  handler catches what its \<open>try\<close> block throws.
\<close>

fun after :: "host \<Rightarrow> event \<Rightarrow> atlas \<Rightarrow> atlas" where
  "after H (Import parsed) s = importMemories H parsed s"
| "after H ev s = state_of (perform H ev s)"

fun run :: "host \<Rightarrow> event list \<Rightarrow> atlas \<Rightarrow> atlas" where
  "run H [] s = s"
| "run H (ev # evs) s = run H evs (after H ev s)"

text \<open>
  An event brings no second copy of an id: a submission that creates happens at a time
  that is not yet an id, and an imported array has no two elements with the same id.
\<close>

fun fresh :: "event \<Rightarrow> atlas \<Rightarrow> bool" where
  "fresh (Submit now isoNow f) s =
     (editingMemory s \<or> Inr (JNum (of_int now)) \<notin> set (ids (memories s)))"
| "fresh (Import (Inr (JArr ms))) s = distinct (ids ms)"
| "fresh ev s = True"

fun admissible :: "host \<Rightarrow> event list \<Rightarrow> atlas \<Rightarrow> bool" where
  "admissible H [] s = True"
| "admissible H (ev # evs) s = (fresh ev s \<and> admissible H evs (after H ev s))"

section \<open>The filter of the specification\<close>

text \<open>
  A date as the date fields of the form and of the filter bar give it: four digits of
  the year, two of the month and two of the day, with hyphens between. \<open>calendar\<close>
  reads the three numbers off such a string.
\<close>

definition isDigit :: "nat \<Rightarrow> bool" where
  "isDigit c = (48 \<le> c \<and> c \<le> 57)"

definition digitValue :: "nat \<Rightarrow> nat" where
  "digitValue c = c - 48"

fun isoDate :: "jsstring \<Rightarrow> bool" where
  "isoDate [y1, y2, y3, y4, h1, m1, m2, h2, d1, d2] =
     (list_all isDigit [y1, y2, y3, y4, m1, m2, d1, d2] \<and> h1 = 45 \<and> h2 = 45)"
| "isoDate s = False"

fun calendar :: "jsstring \<Rightarrow> nat \<times> nat \<times> nat" where
  "calendar [y1, y2, y3, y4, h1, m1, m2, h2, d1, d2] =
     (1000 * digitValue y1 + 100 * digitValue y2 + 10 * digitValue y3 + digitValue y4,
      10 * digitValue m1 + digitValue m2,
      10 * digitValue d1 + digitValue d2)"
| "calendar s = (0, 0, 0)"

text \<open>
  The order of the calendar: the first of two dates is the same day as the second or an
  earlier one. A string that is not such a date is on or before nothing.
\<close>

definition onOrBefore :: "jsstring \<Rightarrow> jsstring \<Rightarrow> bool" where
  "onOrBefore a b =
     (isoDate a \<and> isoDate b
      \<and> (case (calendar a, calendar b) of
            ((y, m, d), (y', m', d')) \<Rightarrow>
              y < y' \<or> (y = y' \<and> (m < m' \<or> (m = m' \<and> d \<le> d')))))"

text \<open>
  The predicate in the specification's words: the conjunction of mood equals, date at
  or after \<open>from\<close>, date at or before \<open>to\<close>, each true when its filter field is
  absent. Dates are compared as days of the calendar.
\<close>

definition satisfies :: "filters \<Rightarrow> jsval \<Rightarrow> bool" where
  "satisfies f m =
     ((moodFilter f = [] \<or> field ''mood'' m = JStr (moodFilter f))
      \<and> (dateFromFilter f = []
         \<or> (case field ''date'' m of JStr d \<Rightarrow> onOrBefore (dateFromFilter f) d | _ \<Rightarrow> False))
      \<and> (dateToFilter f = []
         \<or> (case field ''date'' m of JStr d \<Rightarrow> onOrBefore d (dateToFilter f) | _ \<Rightarrow> False)))"

text \<open>
  What the loop of \<open>applyFilters\<close> does to the layers when \<open>vis\<close> tells for each
  pin whether it is to be shown.
\<close>

definition paint :: "(jsval \<times> marker \<Rightarrow> bool) \<Rightarrow> (jsval \<times> marker) list \<Rightarrow> nat set \<Rightarrow> nat set" where
  "paint vis ps L = fold (\<lambda>p L. if vis p then insert (ref (snd p)) L else L - {ref (snd p)}) ps L"

section \<open>A host and some states to run the code on\<close>

text \<open>
  A host that accepts numeric coordinates, never coerces a comparison to true and
  always has room.
\<close>

definition demoHost :: host where
  "demoHost =
     \<lparr>latLngOk = (\<lambda>lat lng. case (lat, lng) of (JNum a, JNum b) \<Rightarrow> True | _ \<Rightarrow> False),
      coercedLt = (\<lambda>a b. Inr False),
      coercedGt = (\<lambda>a b. Inr False),
      quotaOk = (\<lambda>ms. True)\<rparr>"

text \<open>The state the constructor leaves when nothing is stored.\<close>

definition emptyAtlas :: atlas where
  "emptyAtlas =
     \<lparr>memories = [], pins = [], layers = {}, nextRef = 0, currentPin = None,
      addingMemory = False, currentMemoryId = JNull, editingMemory = False,
      storage = None, notices = []\<rparr>"

text \<open>The example of the specification: a trip with the mood U+1F60A.\<close>

definition smile :: jsstring where
  "smile = [55357, 56842]"

definition tripForm :: form where
  "tripForm =
     \<lparr>memoryTitle = js ''Trip'', memoryDate = js ''2024-05-01'',
      memoryDescription = js ''First hike'', selectedMood = Some (JStr smile)\<rparr>"

definition tripStamp :: jsstring where
  "tripStamp = js ''2024-05-02T10:00:00.000Z''"

definition tripMemory :: jsval where
  "tripMemory =
     newMemory (JNum 1000) (js ''Trip'') (js ''2024-05-01'') (js ''First hike'') (JStr smile)
       (JNum 40, JNum (- 74)) (JStr tripStamp)"

definition tripMarker :: marker where
  "tripMarker =
     \<lparr>ref = 0, latlng = (JNum 40, JNum (- 74)), iconMood = JStr smile,
      popupContent = Popup (JStr (js ''Trip'')) (JStr smile) (js ''First hike'') (JNum 1000)\<rparr>"

text \<open>The state after that trip has been created at (40, -74) at time 1000.\<close>

definition tripAtlas :: atlas where
  "tripAtlas =
     \<lparr>memories = [tripMemory], pins = [(JNum 1000, tripMarker)], layers = {0}, nextRef = 1,
      currentPin = None, addingMemory = False, currentMemoryId = JNull,
      editingMemory = False, storage = Some [tripMemory], notices = [ToastSaved]\<rparr>"

text \<open>Forms: a title of blanks only, a title with a leading blank, and new values.\<close>

definition blankForm :: form where
  "blankForm = tripForm\<lparr>memoryTitle := js ''   ''\<rparr>"

definition paddedForm :: form where
  "paddedForm = tripForm\<lparr>memoryTitle := js '' Trip''\<rparr>"

definition hikeForm :: form where
  "hikeForm =
     \<lparr>memoryTitle = js ''Hike'', memoryDate = js ''2024-06-01'',
      memoryDescription = js ''Second hike'', selectedMood = None\<rparr>"

text \<open>
  The state in which the edit form of the trip is open: \<open>showMemoryDetail\<close> and then
  \<open>editMemory\<close> have run on \<open>tripAtlas\<close>.
\<close>

definition editingAtlas :: atlas where
  "editingAtlas =
     tripAtlas\<lparr>currentPin := Some (JNum 40, JNum (- 74)), editingMemory := True\<rparr>"

text \<open>The detail view of the trip is open.\<close>

definition detailAtlas :: atlas where
  "detailAtlas = tripAtlas\<lparr>currentMemoryId := JNum 1000\<rparr>"

text \<open>
  A second record with the id of the trip and the mood U+1F319, and the state after the
  file holding both has been imported into the empty store.
\<close>

definition moon :: jsstring where
  "moon = [55356, 57113]"

definition twinMemory :: jsval where
  "twinMemory =
     newMemory (JNum 1000) (js ''Night'') (js ''2024-05-03'') (js ''Camp'') (JStr moon)
       (JNum 41, JNum (- 73)) (JStr tripStamp)"

definition twinMarker :: marker where
  "twinMarker =
     \<lparr>ref = 1, latlng = (JNum 41, JNum (- 73)), iconMood = JStr moon,
      popupContent = Popup (JStr (js ''Night'')) (JStr moon) (js ''Camp'') (JNum 1000)\<rparr>"

definition twinAtlas :: atlas where
  "twinAtlas = importMemories demoHost (Inr (JArr [tripMemory, twinMemory])) emptyAtlas"

definition moonFilter :: filters where
  "moonFilter = \<lparr>moodFilter = moon, dateFromFilter = [], dateToFilter = []\<rparr>"

text \<open>
  The state after the detail view of id 1000 has been opened on \<open>twinAtlas\<close> and the
  deletion confirmed.
\<close>

definition bereftAtlas :: atlas where
  "bereftAtlas =
     emptyAtlas\<lparr>memories := [twinMemory], pins := [], layers := {0}, nextRef := 2,
                storage := Some [twinMemory], notices := [ToastImported 2, ToastDeleted]\<rparr>"

text \<open>The state the constructor builds when the trip is what storage holds.\<close>

definition storedAtlas :: atlas where
  "storedAtlas = emptyAtlas\<lparr>memories := [tripMemory], storage := Some [tripMemory]\<rparr>"

text \<open>
  The state after the trip and then a hike without a selected mood have been created,
  and the filters used on it.
\<close>

definition hikeMemory :: jsval where
  "hikeMemory =
     newMemory (JNum 2000) (js ''Hike'') (js ''2024-06-01'') (js ''Second hike'')
       (JStr pinSymbol) (JNum 41, JNum (- 73)) (JStr tripStamp)"

definition hikeMarker :: marker where
  "hikeMarker =
     \<lparr>ref = 1, latlng = (JNum 41, JNum (- 73)), iconMood = JStr pinSymbol,
      popupContent = Popup (JStr (js ''Hike'')) (JStr pinSymbol) (js ''Second hike'')
                       (JNum 2000)\<rparr>"

definition pairAtlas :: atlas where
  "pairAtlas =
     tripAtlas\<lparr>memories := [tripMemory, hikeMemory],
                pins := [(JNum 1000, tripMarker), (JNum 2000, hikeMarker)],
                layers := {0, 1}, nextRef := 2,
                storage := Some [tripMemory, hikeMemory],
                notices := [ToastSaved, ToastAddMode, ToastSaved]\<rparr>"

definition smileFilter :: filters where
  "smileFilter =
     \<lparr>moodFilter = smile, dateFromFilter = js ''2024-01-01'',
      dateToFilter = js ''2024-12-31''\<rparr>"

text \<open>
  The detail view of the trip is open and an empty file is imported: the current id is
  still 1000 and no record has it.
\<close>

definition staleAtlas :: atlas where
  "staleAtlas = importMemories demoHost (Inr (JArr [])) detailAtlas"

text \<open>
  A value that \<open>JSON.stringify\<close> writes and \<open>JSON.parse\<close> reads back unchanged: no
  \<open>undefined\<close> occurs in it, and no object lists a name twice.
\<close>

fun plain :: "jsval \<Rightarrow> bool" where
  "plain JUndefined = False"
| "plain (JArr xs) = list_all plain xs"
| "plain (JObj kvs) = (distinct (map fst kvs) \<and> list_all (\<lambda>kv. plain (snd kv)) kvs)"
| "plain v = True"



text \<open>
  The file with the trip and its twin is imported and then the file with the trip
  alone. The first marker drawn for id 1000 was replaced in the cache by the second
  while it stayed on the map, so the second import, which removes the cached markers,
  leaves it there.
\<close>

definition orphanAtlas :: atlas where
  "orphanAtlas =
     run demoHost
       [Import (Inr (JArr [tripMemory, twinMemory])), Import (Inr (JArr [tripMemory]))]
       emptyAtlas"

text \<open>
  A record as a file written elsewhere may hold it, with the date 15 June 2024 written
  without the leading zero of the month, the state after its import into the empty
  store, and a filter from 1 July 2024 on.
\<close>

definition juneMemory :: jsval where
  "juneMemory =
     newMemory (JNum 3000) (js ''Swim'') (js ''2024-6-15'') (js ''Lake'') (JStr smile)
       (JNum 42, JNum (- 72)) (JStr tripStamp)"

definition juneAtlas :: atlas where
  "juneAtlas = importMemories demoHost (Inr (JArr [juneMemory])) emptyAtlas"

definition julyFilter :: filters where
  "julyFilter = \<lparr>moodFilter = [], dateFromFilter = js ''2024-07-01'', dateToFilter = []\<rparr>"

section \<open>Evaluation\<close>

lemmas js_values = js_def trim_def isWhiteSpace_def getProp_def strictEq_def pinSymbol_def
  smile_def newMemory_def

lemmas methods = andThen_def showToast_def saveToStorage_def createPopupContent_def
  addPinToMap_def loadMemories_def createMemoryAt_def closeModal_def closeDetailModal_def
  saveMemory_def showMemoryDetail_def editMemory_def deleteMemory_def importTry_def
  importMemories_def addMemoryMode_def mapClick_def Let_def

lemmas examples = demoHost_def emptyAtlas_def tripForm_def tripStamp_def tripMemory_def
  tripMarker_def tripAtlas_def blankForm_def paddedForm_def hikeForm_def
  editingAtlas_def detailAtlas_def moon_def twinMemory_def twinMarker_def
  moonFilter_def bereftAtlas_def storedAtlas_def hikeMemory_def hikeMarker_def pairAtlas_def
  smileFilter_def

lemmas filtering = js_lt_def js_gt_def showPin_def applyFilters_def

text \<open>The example states are those the code produces.\<close>

lemma tripAtlas_created:
  "saveMemory demoHost 1000 tripStamp tripForm (createMemoryAt (40, - 74) emptyAtlas)
     = Ok tripAtlas"
  by (simp add: js_values methods examples)

lemma twinAtlas_imported:
  "twinAtlas
     = emptyAtlas\<lparr>memories := [tripMemory, twinMemory],
                  pins := [(JNum 1000, twinMarker)], layers := {0, 1}, nextRef := 2,
                  storage := Some [tripMemory, twinMemory], notices := [ToastImported 2]\<rparr>"
  by (simp add: twinAtlas_def js_values methods examples insert_commute)

lemma pairAtlas_created:
  "run demoHost [AddMode, MapClick (41, - 73), Submit 2000 tripStamp hikeForm] tripAtlas
     = pairAtlas"
  by (simp add: js_values methods examples insert_commute)

lemma detailAtlas_opened: "showMemoryDetail (JNum 1000) tripAtlas = Ok detailAtlas"
  by (simp add: js_values methods examples)

text \<open>
  The example of the specification: the trip is shown under the filter on its mood and
  hidden under the filter on another mood.
\<close>

lemma trip_filtered_by_mood:
  "applyFilters demoHost \<lparr>moodFilter = smile, dateFromFilter = [], dateToFilter = []\<rparr> tripAtlas
     = Ok (tripAtlas\<lparr>notices := [ToastSaved, ToastShowing 1 1]\<rparr>)"
  "applyFilters demoHost moonFilter tripAtlas
     = Ok (tripAtlas\<lparr>layers := {}, notices := [ToastSaved, ToastShowing 0 1]\<rparr>)"
  by (simp_all add: js_values methods filtering examples)

section \<open>Validation of the form\<close>

text \<open>
  C6. Whenever the title or the description is blank (empty once trimmed) or the date
  is empty, \<open>saveMemory\<close> returns after the alert and nothing else has changed: the
  collection, the markers and the storage are those of before. This holds for a new
  memory and for an edit alike.
\<close>

theorem saveMemory_blank_field:
  assumes "trim (memoryTitle f) = [] \<or> memoryDate f = [] \<or> trim (memoryDescription f) = []"
  shows "saveMemory H now isoNow f s = Ok (s\<lparr>notices := notices s @ [AlertRequiredFields]\<rparr>)"
  using assms by (auto simp: saveMemory_def showToast_def)

theorem saveMemory_blank_field_witness:
  "trim (memoryTitle blankForm) = []
   \<and> saveMemory demoHost 2000 tripStamp blankForm (createMemoryAt (41, - 73) tripAtlas)
       = Ok ((createMemoryAt (41, - 73) tripAtlas)
               \<lparr>notices := [ToastSaved, AlertRequiredFields]\<rparr>)"
proof -
  have blank: "trim (memoryTitle blankForm) = []"
    by (simp add: js_values examples)
  then have "trim (memoryTitle blankForm) = [] \<or> memoryDate blankForm = []
             \<or> trim (memoryDescription blankForm) = []"
    by simp
  from saveMemory_blank_field [OF this] blank show ?thesis
    by (simp add: createMemoryAt_def tripAtlas_def)
qed

section \<open>Creating a memory\<close>

text \<open>
  C7, as amended. With a pin placed, not editing, and the three required fields not
  blank, \<open>saveMemory\<close> appends one record to the collection and leaves the records
  already there as they were, whether or not the marker can then be drawn. The new
  record has the timestamp as id, the title and the description of the form trimmed,
  its date, the selected mood or the pin symbol when none is selected, the coordinates
  of the pin, and the creation time.
\<close>

theorem saveMemory_create_appends:
  assumes "\<not> editingMemory s" and "currentPin s = Some pin"
    and "trim (memoryTitle f) \<noteq> []" and "memoryDate f \<noteq> []"
    and "trim (memoryDescription f) \<noteq> []"
  shows "memories (state_of (saveMemory H now isoNow f s))
           = memories s
             @ [newMemory (JNum (of_int now)) (trim (memoryTitle f)) (memoryDate f)
                  (trim (memoryDescription f))
                  (case selectedMood f of Some m \<Rightarrow> m | None \<Rightarrow> JStr pinSymbol)
                  pin (JStr isoNow)]"
proof -
  let ?memory = "newMemory (JNum (of_int now)) (trim (memoryTitle f)) (memoryDate f)
                   (trim (memoryDescription f))
                   (case selectedMood f of Some m \<Rightarrow> m | None \<Rightarrow> JStr pinSymbol)
                   pin (JStr isoNow)"
  let ?s2 = "saveToStorage H (s\<lparr>memories := memories s @ [?memory]\<rparr>)"
  have stored: "memories ?s2 = memories s @ [?memory]"
    by (simp add: saveToStorage_def showToast_def)
  have pinned: "memories (state_of (addPinToMap H ?memory ?s2)) = memories ?s2"
    by (simp add: addPinToMap_def Let_def split: sum.split)
  have "saveMemory H now isoNow f s
          = andThen (addPinToMap H ?memory ?s2) (\<lambda>s3. Ok (showToast ToastSaved (closeModal s3)))"
    using assms by (simp add: saveMemory_def Let_def andThen_def)
  then have "memories (state_of (saveMemory H now isoNow f s))
               = memories (state_of (addPinToMap H ?memory ?s2))"
    by (cases "addPinToMap H ?memory ?s2") (simp_all add: andThen_def showToast_def closeModal_def)
  with stored pinned show ?thesis by simp
qed

theorem saveMemory_create_appends_witness:
  "\<not> editingMemory (createMemoryAt (41, - 73) tripAtlas)
   \<and> currentPin (createMemoryAt (41, - 73) tripAtlas) = Some (JNum 41, JNum (- 73))
   \<and> trim (memoryTitle hikeForm) \<noteq> [] \<and> memoryDate hikeForm \<noteq> []
   \<and> trim (memoryDescription hikeForm) \<noteq> []
   \<and> memories (state_of (saveMemory demoHost 2000 tripStamp hikeForm
                              (createMemoryAt (41, - 73) tripAtlas)))
       = [tripMemory,
          newMemory (JNum 2000) (js ''Hike'') (js ''2024-06-01'') (js ''Second hike'')
            (JStr pinSymbol) (JNum 41, JNum (- 73)) (JStr tripStamp)]"
proof -
  have a: "\<not> editingMemory (createMemoryAt (41, - 73) tripAtlas)"
    and b: "currentPin (createMemoryAt (41, - 73) tripAtlas) = Some (JNum 41, JNum (- 73))"
    by (simp_all add: createMemoryAt_def tripAtlas_def)
  have c: "trim (memoryTitle hikeForm) \<noteq> []" and d: "memoryDate hikeForm \<noteq> []"
    and e: "trim (memoryDescription hikeForm) \<noteq> []"
    by (simp_all add: hikeForm_def js_def trim_def isWhiteSpace_def)
  have t: "trim (memoryTitle hikeForm) = js ''Hike''"
    and u: "trim (memoryDescription hikeForm) = js ''Second hike''"
    by (simp_all add: hikeForm_def js_def trim_def isWhiteSpace_def)
  have "memories (createMemoryAt (41, - 73) tripAtlas) = [tripMemory]"
    by (simp add: createMemoryAt_def tripAtlas_def)
  with saveMemory_create_appends [OF a b c d e, of demoHost 2000 tripStamp] t u a b c d e
  show ?thesis by (simp add: hikeForm_def)
qed

text \<open>
  Against C7 as the specification states it, with the fields of the new record
  matching the input exactly: a title typed with a leading blank is stored without
  it.
\<close>

theorem saveMemory_create_trims_counterexample:
  "\<not> (field ''title''
         (last (memories (state_of (saveMemory demoHost 1000 tripStamp paddedForm
                                      (createMemoryAt (40, - 74) emptyAtlas)))))
        = JStr (memoryTitle paddedForm))"
  by (simp add: js_values methods examples)

section \<open>Submitting the edit form\<close>

lemma find_id_absent:
  "Inr x \<notin> set (ids ms) \<Longrightarrow> find_id ms x = Inl TypeError \<or> find_id ms x = Inr JUndefined"
  by (induction ms) (auto simp: ids_def getProp_def strictEq_def)

lemma saveMemory_edit_no_match:
  assumes "editingMemory s"
    and "find_id (memories s) (currentMemoryId s) = Inl TypeError
         \<or> find_id (memories s) (currentMemoryId s) = Inr JUndefined"
    and "trim (memoryTitle f) \<noteq> []" and "memoryDate f \<noteq> []"
    and "trim (memoryDescription f) \<noteq> []"
  shows "saveMemory H now isoNow f s = Throw TypeError s"
  using assms by (auto simp: saveMemory_def getProp_def Let_def split: option.split)

text \<open>
  C1. In edit mode, when no record of the collection has the id under edit, a valid
  submission does not return: \<open>saveMemory\<close> throws a TypeError while it reads
  \<open>createdAt\<close> from the record it did not find. It throws before it assigns anything,
  so the collection, the markers and the storage are those of before, and no notice is
  shown.
\<close>

theorem saveMemory_edit_unknown_id_throws:
  assumes "editingMemory s" and "Inr (currentMemoryId s) \<notin> set (ids (memories s))"
    and "trim (memoryTitle f) \<noteq> []" and "memoryDate f \<noteq> []"
    and "trim (memoryDescription f) \<noteq> []"
  shows "saveMemory H now isoNow f s = Throw TypeError s"
  using assms find_id_absent saveMemory_edit_no_match by blast

theorem saveMemory_edit_unknown_id_throws_witness:
  "editingMemory editingAtlas
   \<and> Inr (currentMemoryId editingAtlas) \<notin> set (ids (memories editingAtlas))
   \<and> trim (memoryTitle hikeForm) \<noteq> [] \<and> memoryDate hikeForm \<noteq> []
   \<and> trim (memoryDescription hikeForm) \<noteq> []
   \<and> saveMemory demoHost 2000 tripStamp hikeForm editingAtlas = Throw TypeError editingAtlas"
proof -
  have a: "editingMemory editingAtlas"
    and b: "Inr (currentMemoryId editingAtlas) \<notin> set (ids (memories editingAtlas))"
    by (simp_all add: ids_def js_values examples)
  have c: "trim (memoryTitle hikeForm) \<noteq> []" and d: "memoryDate hikeForm \<noteq> []"
    and e: "trim (memoryDescription hikeForm) \<noteq> []"
    by (simp_all add: hikeForm_def js_def trim_def isWhiteSpace_def)
  from saveMemory_edit_unknown_id_throws [OF a b c d e] a b c d e show ?thesis
    by simp
qed

section \<open>Editing a memory\<close>

text \<open>
  C8. Open the detail view of a record, press edit, submit valid new values:
  \<open>editMemory\<close> closes the detail view, which sets \<open>currentMemoryId\<close> to \<open>null\<close>,
  so \<open>saveMemory\<close> looks for a record whose id is \<open>null\<close>. Unless the collection has
  one, the submission throws a TypeError and the record keeps its old values: the
  collection is the one of before.
\<close>

theorem edit_then_submit_throws:
  assumes "find_id (memories s) memoryId = Inr m" and "truthy m"
    and "list_all (\<lambda>k. stringifies (field k m))
           [''title'', ''date'', ''mood'', ''createdAt'', ''description'']"
    and "Inr JNull \<notin> set (ids (memories s))"
    and "trim (memoryTitle f) \<noteq> []" and "memoryDate f \<noteq> []"
    and "trim (memoryDescription f) \<noteq> []"
  shows "andThen (showMemoryDetail memoryId s)
           (\<lambda>s1. andThen (editMemory s1) (saveMemory H now isoNow f))
         = Throw TypeError
             (s\<lparr>currentPin := Some (field ''lat'' m, field ''lng'' m),
                editingMemory := True, currentMemoryId := JNull\<rparr>)"
proof -
  let ?s1 = "s\<lparr>currentMemoryId := memoryId\<rparr>"
  let ?s2 = "s\<lparr>currentPin := Some (field ''lat'' m, field ''lng'' m),
               editingMemory := True, currentMemoryId := JNull\<rparr>"
  have detail: "showMemoryDetail memoryId s = Ok ?s1"
    using assms(1-3) by (simp add: showMemoryDetail_def)
  have edit: "editMemory ?s1 = Ok ?s2"
    using assms(1-3) by (simp add: editMemory_def closeDetailModal_def Let_def)
  have "find_id (memories ?s2) (currentMemoryId ?s2) = Inl TypeError
        \<or> find_id (memories ?s2) (currentMemoryId ?s2) = Inr JUndefined"
    using find_id_absent [OF assms(4)] by simp
  then have "saveMemory H now isoNow f ?s2 = Throw TypeError ?s2"
    using assms(5-7) by (intro saveMemory_edit_no_match) simp_all
  with detail edit show ?thesis by (simp add: andThen_def)
qed

theorem edit_then_submit_throws_witness:
  "find_id (memories tripAtlas) (JNum 1000) = Inr tripMemory \<and> truthy tripMemory
   \<and> list_all (\<lambda>k. stringifies (field k tripMemory))
        [''title'', ''date'', ''mood'', ''createdAt'', ''description'']
   \<and> Inr JNull \<notin> set (ids (memories tripAtlas))
   \<and> trim (memoryTitle hikeForm) \<noteq> [] \<and> memoryDate hikeForm \<noteq> []
   \<and> trim (memoryDescription hikeForm) \<noteq> []
   \<and> andThen (showMemoryDetail (JNum 1000) tripAtlas)
        (\<lambda>s1. andThen (editMemory s1) (saveMemory demoHost 2000 tripStamp hikeForm))
      = Throw TypeError editingAtlas
   \<and> memories editingAtlas = [tripMemory]"
proof -
  have a: "find_id (memories tripAtlas) (JNum 1000) = Inr tripMemory"
    and b: "truthy tripMemory"
    and c: "list_all (\<lambda>k. stringifies (field k tripMemory))
              [''title'', ''date'', ''mood'', ''createdAt'', ''description'']"
    and d: "Inr JNull \<notin> set (ids (memories tripAtlas))"
    by (simp_all add: ids_def js_values examples)
  have e: "trim (memoryTitle hikeForm) \<noteq> []" and g: "memoryDate hikeForm \<noteq> []"
    and h: "trim (memoryDescription hikeForm) \<noteq> []"
    by (simp_all add: hikeForm_def js_def trim_def isWhiteSpace_def)
  have i: "tripAtlas\<lparr>currentPin := Some (field ''lat'' tripMemory, field ''lng'' tripMemory),
                      editingMemory := True, currentMemoryId := JNull\<rparr> = editingAtlas"
    and j: "memories editingAtlas = [tripMemory]"
    by (simp_all add: js_values examples)
  from edit_then_submit_throws [OF a b c d e g h, of demoHost 2000 tripStamp] a b c d e g h i j
  show ?thesis by simp
qed

section \<open>Import\<close>

lemma saveToStorage_memories [simp]: "memories (saveToStorage H s) = memories s"
  by (simp add: saveToStorage_def showToast_def)

lemma addPinToMap_memories [simp]: "memories (state_of (addPinToMap H m s)) = memories s"
  by (simp add: addPinToMap_def Let_def split: sum.split)

lemma addPins_memories [simp]: "memories (state_of (addPins H ms s)) = memories s"
proof (induction ms arbitrary: s)
  case Nil
  show ?case by simp
next
  case (Cons m ms)
  show ?case
  proof (cases "addPinToMap H m s")
    case (Ok s1)
    with Cons.IH [of s1] addPinToMap_memories [of H m s] show ?thesis
      by (simp add: andThen_def)
  next
    case (Throw e s1)
    with addPinToMap_memories [of H m s] show ?thesis
      by (simp add: andThen_def)
  qed
qed

text \<open>
  A text that does not parse, or parses to something that is not an array, leaves the
  state as it was but for the failure toast.
\<close>

lemma importMemories_rejected:
  assumes "\<forall>ms. parsed \<noteq> Inr (JArr ms)"
  shows "importMemories H parsed s = showToast ToastImportFailed s"
proof (cases parsed)
  case (Inl e)
  then show ?thesis by (simp add: importMemories_def importTry_def)
next
  case (Inr v)
  with assms show ?thesis
    by (cases v) (simp_all add: importMemories_def importTry_def)
qed

text \<open>An array replaces the collection, whether or not its markers can all be drawn.\<close>

lemma importMemories_array:
  "memories (importMemories H (Inr (JArr ms)) s) = ms"
proof -
  let ?s0 = "saveToStorage H (s\<lparr>layers := layers s - ref ` snd ` set (pins s), pins := [],
                                memories := ms\<rparr>)"
  have "memories (state_of (addPins H ms ?s0)) = ms"
    by simp
  then show ?thesis
    by (cases "addPins H ms ?s0")
       (simp_all add: importMemories_def importTry_def loadMemories_def andThen_def showToast_def)
qed

text \<open>
  C2. Import the file \<open>[null]\<close> into the store that holds the trip. The text parses
  and is an array, so the markers are removed, the collection is replaced and written
  to storage; then \<open>addPinToMap(null)\<close> throws and the failure toast is shown. The
  import has failed and the prior collection and its marker are gone.
\<close>

theorem importMemories_null_record:
  "importMemories demoHost (Inr (JArr [JNull])) tripAtlas
     = tripAtlas\<lparr>memories := [JNull], pins := [], layers := {}, storage := Some [JNull],
                 notices := [ToastSaved, ToastImportFailed]\<rparr>"
  by (simp add: js_values methods examples)

section \<open>Export followed by import\<close>

lemma lastWins_distinct: "distinct (map fst kvs) \<Longrightarrow> lastWins kvs = kvs"
proof -
  have "distinct (map fst (acc @ kvs)) \<Longrightarrow>
        foldl (\<lambda>props kv. AList.update (fst kv) (snd kv) props) acc kvs = acc @ kvs" for acc
  proof (induction kvs arbitrary: acc)
    case Nil
    show ?case by simp
  next
    case (Cons kv kvs)
    from Cons.prems have "fst kv \<notin> fst ` set acc"
      by auto
    then have "AList.update (fst kv) (snd kv) acc = acc @ [kv]"
      by (induction acc) auto
    with Cons.IH [of "acc @ [kv]"] Cons.prems show ?case by simp
  qed
  from this [of "[]"] show "distinct (map fst kvs) \<Longrightarrow> lastWins kvs = kvs"
    by (simp add: lastWins_def)
qed

text \<open>What \<open>JSON.stringify\<close> writes of a plain value, \<open>JSON.parse\<close> reads back as that value.\<close>

lemma roundtrip_plain: "plain v \<Longrightarrow> \<exists>j. JSON_value v = Some j \<and> parsedValue j = v"
proof (induction v)
  case (JArr xs)
  then have each: "\<forall>x\<in>set xs. \<exists>j. JSON_value x = Some j \<and> parsedValue j = x"
    by (simp add: list_all_iff)
  have "map parsedValue (map (\<lambda>x. case JSON_value x of None \<Rightarrow> JsonNull | Some j \<Rightarrow> j) xs) = xs"
    using each by (induction xs) auto
  then show ?case by simp
next
  case (JObj kvs)
  then have each: "\<forall>kv\<in>set kvs. \<exists>j. JSON_value (snd kv) = Some j \<and> parsedValue j = snd kv"
    and keys: "distinct (map fst kvs)"
    by (auto simp: list_all_iff snds.simps)
  have "map (\<lambda>kj. (fst kj, parsedValue (snd kj)))
          (concat (map (\<lambda>kv. case JSON_value (snd kv) of None \<Rightarrow> [] | Some j \<Rightarrow> [(fst kv, j)]) kvs))
        = kvs"
    using each by (induction kvs) auto
  with keys show ?case by (simp add: lastWins_distinct)
qed simp_all

lemma JSON_parse_stringify: "plain v \<Longrightarrow> JSON_parse (JSON_stringify v) = Inr v"
  using roundtrip_plain [of v] by (auto simp: JSON_parse_def JSON_stringify_def)




section \<open>Deleting a memory\<close>

lemma findIndex_id_Some:
  "findIndex_id ms x = Inr (Some i) \<Longrightarrow> i < length ms \<and> getProp (ms ! i) ''id'' = Inr x"
proof (induction ms arbitrary: i)
  case Nil
  then show ?case by simp
next
  case (Cons m ms)
  show ?case
  proof (cases "getProp m ''id'' = Inr x")
    case True
    with Cons.prems show ?thesis by (simp add: strictEq_def)
  next
    case False
    with Cons.prems obtain j where "findIndex_id ms x = Inr (Some j)" and "i = Suc j"
      by (auto simp: strictEq_def split: sum.splits option.splits if_splits)
    with Cons.IH [of j] show ?thesis by simp
  qed
qed

lemma findIndex_id_absent:
  "Inr x \<notin> set (ids ms) \<Longrightarrow> findIndex_id ms x = Inl TypeError \<or> findIndex_id ms x = Inr None"
  by (induction ms) (auto simp: ids_def getProp_def strictEq_def)

text \<open>
  C4, as amended. After confirmation, when \<open>findIndex\<close> locates a record with the
  current id at index \<open>i\<close> and the cache holds a marker under that id, \<open>deleteMemory\<close>
  returns with exactly the record at \<open>i\<close> removed and every other record in place,
  the marker off the map and out of the cache, the collection written to storage when
  there is room, and the deletion toast shown. When no record has the current id, the
  state after \<open>deleteMemory\<close> is the state before: nothing is removed and nothing is
  shown. Without confirmation nothing happens.
\<close>

theorem deleteMemory_effect:
  "(findIndex_id (memories s) (currentMemoryId s) = Inr (Some i)
      \<and> map_of (pins s) (currentMemoryId s) = Some mk
    \<longrightarrow> (\<exists>s'. deleteMemory H True s = Ok s'
           \<and> i < length (memories s)
           \<and> getProp (memories s ! i) ''id'' = Inr (currentMemoryId s)
           \<and> memories s' = take i (memories s) @ drop (Suc i) (memories s)
           \<and> pins s' = AList.delete (currentMemoryId s) (pins s)
           \<and> layers s' = layers s - {ref mk}
           \<and> storage s' = (if quotaOk H (memories s') then Some (memories s') else storage s)
           \<and> last (notices s') = ToastDeleted))
   \<and> (Inr (currentMemoryId s) \<notin> set (ids (memories s))
      \<longrightarrow> state_of (deleteMemory H True s) = s)
   \<and> deleteMemory H False s = Ok s"
proof (intro conjI impI)
  assume found: "findIndex_id (memories s) (currentMemoryId s) = Inr (Some i)
                 \<and> map_of (pins s) (currentMemoryId s) = Some mk"
  from found findIndex_id_Some [of "memories s" "currentMemoryId s" i]
  have at: "i < length (memories s)"
    "getProp (memories s ! i) ''id'' = Inr (currentMemoryId s)"
    by simp_all
  from found at show "\<exists>s'. deleteMemory H True s = Ok s'
           \<and> i < length (memories s)
           \<and> getProp (memories s ! i) ''id'' = Inr (currentMemoryId s)
           \<and> memories s' = take i (memories s) @ drop (Suc i) (memories s)
           \<and> pins s' = AList.delete (currentMemoryId s) (pins s)
           \<and> layers s' = layers s - {ref mk}
           \<and> storage s' = (if quotaOk H (memories s') then Some (memories s') else storage s)
           \<and> last (notices s') = ToastDeleted"
    by (simp add: deleteMemory_def saveToStorage_def closeDetailModal_def showToast_def)
next
  assume "Inr (currentMemoryId s) \<notin> set (ids (memories s))"
  from findIndex_id_absent [OF this] show "state_of (deleteMemory H True s) = s"
    by (auto simp: deleteMemory_def)
next
  show "deleteMemory H False s = Ok s"
    by (simp add: deleteMemory_def)
qed

theorem deleteMemory_effect_witness:
  "findIndex_id (memories detailAtlas) (currentMemoryId detailAtlas) = Inr (Some 0)
   \<and> map_of (pins detailAtlas) (currentMemoryId detailAtlas) = Some tripMarker
   \<and> deleteMemory demoHost True detailAtlas
       = Ok (tripAtlas\<lparr>memories := [], pins := [], layers := {}, storage := Some [],
                       notices := [ToastSaved, ToastDeleted]\<rparr>)
   \<and> Inr (currentMemoryId tripAtlas) \<notin> set (ids (memories tripAtlas))
   \<and> state_of (deleteMemory demoHost True tripAtlas) = tripAtlas"
proof -
  have a: "findIndex_id (memories detailAtlas) (currentMemoryId detailAtlas) = Inr (Some 0)
           \<and> map_of (pins detailAtlas) (currentMemoryId detailAtlas) = Some tripMarker"
    by (simp add: js_values examples)
  have b: "Inr (currentMemoryId tripAtlas) \<notin> set (ids (memories tripAtlas))"
    by (simp add: ids_def js_values examples)
  have c: "deleteMemory demoHost True detailAtlas
             = Ok (tripAtlas\<lparr>memories := [], pins := [], layers := {}, storage := Some [],
                             notices := [ToastSaved, ToastDeleted]\<rparr>)"
    by (simp add: js_values methods examples AList.delete_eq)
  note gone = deleteMemory_effect [of tripAtlas 0 tripMarker demoHost,
      THEN conjunct2, THEN conjunct1, rule_format, OF b]
  show ?thesis
    by (intro conjI) (rule a [THEN conjunct1], rule a [THEN conjunct2], rule c, rule b, rule gone)
qed

text \<open>
  Against C4 as the specification states it, with the failure reported when the id is
  not in the collection: the current id 1000 is stale after the import of an empty
  file, and \<open>deleteMemory\<close> returns the state unchanged, with no new notice.
\<close>

theorem deleteMemory_silent_counterexample:
  "Inr (currentMemoryId staleAtlas) \<notin> set (ids (memories staleAtlas))
   \<and> currentMemoryId staleAtlas = JNum 1000
   \<and> deleteMemory demoHost True staleAtlas = Ok staleAtlas
   \<and> notices (state_of (deleteMemory demoHost True staleAtlas)) = notices staleAtlas"
  by (simp add: staleAtlas_def ids_def js_values methods examples)

section \<open>What each operation does to the collection\<close>

lemma andThen_Ok [simp]: "andThen (Ok s) f = f s"
  by (simp add: andThen_def)

lemma andThen_Throw [simp]: "andThen (Throw e s) f = Throw e s"
  by (simp add: andThen_def)

lemma showToast_memories [simp]: "memories (showToast n s) = memories s"
  by (simp add: showToast_def)

lemma finish_memories:
  "memories (state_of (andThen (addPinToMap H m s) (\<lambda>s3. Ok (showToast n (closeModal s3)))))
     = memories s"
  using addPinToMap_memories [of H m s]
  by (cases "addPinToMap H m s") (simp_all add: andThen_def showToast_def closeModal_def)

lemma newMemory_id: "getProp (newMemory i t d e mo p c) ''id'' = Inr i"
  by (simp add: newMemory_def getProp_def)

lemma ids_update_same:
  assumes "findIndex_id ms x = Inr (Some i)" and "getProp m ''id'' = Inr x"
  shows "ids (ms[i := m]) = ids ms"
proof -
  from findIndex_id_Some [OF assms(1)]
  have "i < length ms" and "getProp (ms ! i) ''id'' = Inr x"
    by simp_all
  with assms(2) have "(ids ms)[i := getProp m ''id''] = ids ms"
    by (simp add: ids_def list_update_same_conv)
  then show ?thesis by (simp add: ids_def map_update)
qed

lemma ids_append [simp]: "ids (ms @ [m]) = ids ms @ [getProp m ''id'']"
  by (simp add: ids_def)

lemma saveMemory_ids:
  "ids (memories (state_of (saveMemory H now isoNow f s))) = ids (memories s)
   \<or> (\<not> editingMemory s
      \<and> ids (memories (state_of (saveMemory H now isoNow f s)))
          = ids (memories s) @ [Inr (JNum (of_int now))])"
proof (cases "editingMemory s")
  case False
  then show ?thesis
    by (auto simp: saveMemory_def Let_def finish_memories newMemory_id
        split: option.splits sum.splits)
next
  case True
  show ?thesis
  proof (cases "findIndex_id (memories s) (currentMemoryId s)")
    case (Inl e)
    with True show ?thesis
      by (auto simp: saveMemory_def Let_def split: option.splits sum.splits)
  next
    case (Inr index)
    with True show ?thesis
      by (cases index)
         (auto simp: saveMemory_def Let_def finish_memories newMemory_id ids_update_same
          split: option.splits sum.splits)
  qed
qed

lemma deleteMemory_ids:
  "ids (memories (state_of (deleteMemory H confirmed s))) = ids (memories s)
   \<or> (\<exists>i. ids (memories (state_of (deleteMemory H confirmed s)))
            = take i (ids (memories s)) @ drop (Suc i) (ids (memories s)))"
  by (auto simp: deleteMemory_def ids_def take_map drop_map closeDetailModal_def
      split: sum.splits option.splits)

section \<open>Uniqueness of ids\<close>

lemma distinct_take_drop: "distinct xs \<Longrightarrow> distinct (take i xs @ drop (Suc i) xs)"
proof (induction xs arbitrary: i)
  case Nil
  show ?case by simp
next
  case (Cons x xs)
  show ?case
  proof (cases i)
    case 0
    with Cons.prems show ?thesis by simp
  next
    case (Suc j)
    from Cons.prems have "x \<notin> set (take j xs)" and "x \<notin> set (drop (Suc j) xs)"
      by (auto dest: in_set_takeD in_set_dropD)
    with Cons.IH [of j] Cons.prems Suc show ?thesis by simp
  qed
qed

lemma filterPins_memories [simp]: "memories (snd (filterPins H f ps n s)) = memories s"
  by (induction ps arbitrary: n s) (auto split: sum.splits bool.splits)

lemma applyFilters_memories [simp]: "memories (state_of (applyFilters H f s)) = memories s"
proof -
  have "memories (snd (filterPins H f (pins s) 0 s)) = memories s"
    by simp
  then show ?thesis
    by (cases "filterPins H f (pins s) 0 s") (auto simp: applyFilters_def split: sum.splits)
qed

lemma showMemoryDetail_memories [simp]:
  "memories (state_of (showMemoryDetail memoryId s)) = memories s"
  by (simp add: showMemoryDetail_def split: sum.split)

lemma editMemory_memories [simp]: "memories (state_of (editMemory s)) = memories s"
  by (simp add: editMemory_def closeDetailModal_def Let_def split: sum.split)

lemma after_distinct:
  assumes "distinct (ids (memories s))" and "fresh ev s"
  shows "distinct (ids (memories (after H ev s)))"
proof (cases ev)
  case (Submit now isoNow f)
  with assms saveMemory_ids [of H now isoNow f s] show ?thesis by auto
next
  case (Delete confirmed)
  with assms deleteMemory_ids [of H confirmed s] show ?thesis
    by (auto simp del: distinct_append simp: distinct_take_drop)
next
  case (Import parsed)
  show ?thesis
  proof (cases "\<exists>ms. parsed = Inr (JArr ms)")
    case True
    then obtain ms where array: "parsed = Inr (JArr ms)" ..
    with assms(2) Import have "distinct (ids ms)" by simp
    with array Import show ?thesis by (simp add: importMemories_array)
  next
    case False
    then have "importMemories H parsed s = showToast ToastImportFailed s"
      by (intro importMemories_rejected) simp
    with assms(1) Import show ?thesis by simp
  qed
qed (use assms in \<open>simp_all add: addMemoryMode_def mapClick_def createMemoryAt_def
       closeDetailModal_def closeModal_def\<close>)

text \<open>
  C3, as amended. Start from a collection in which no two records share an id and let
  any sequence of events happen in which every creating submission comes at a time
  that is not yet an id and every imported array has no two elements with the same
  id. Then no two records of the resulting collection share an id, whether the
  handlers returned or threw.
\<close>

theorem ids_stay_distinct:
  "distinct (ids (memories s)) \<Longrightarrow> admissible H evs s
   \<Longrightarrow> distinct (ids (memories (run H evs s)))"
proof (induction evs arbitrary: s)
  case Nil
  then show ?case by simp
next
  case (Cons ev evs)
  from Cons.prems have "distinct (ids (memories (after H ev s)))"
    by (simp add: after_distinct)
  with Cons.IH [of "after H ev s"] Cons.prems show ?case by simp
qed

theorem ids_stay_distinct_witness:
  "distinct (ids (memories emptyAtlas))
   \<and> admissible demoHost
        [AddMode, MapClick (40, - 74), Submit 1000 tripStamp tripForm,
         AddMode, MapClick (41, - 73), Submit 2000 tripStamp hikeForm,
         Detail (JNum 1000), Delete True, Import (Inr (JArr [twinMemory]))]
        emptyAtlas
   \<and> distinct (ids (memories (run demoHost
        [AddMode, MapClick (40, - 74), Submit 1000 tripStamp tripForm,
         AddMode, MapClick (41, - 73), Submit 2000 tripStamp hikeForm,
         Detail (JNum 1000), Delete True, Import (Inr (JArr [twinMemory]))]
        emptyAtlas)))"
proof -
  have a: "distinct (ids (memories emptyAtlas))"
    by (simp add: ids_def emptyAtlas_def)
  have b: "admissible demoHost
        [AddMode, MapClick (40, - 74), Submit 1000 tripStamp tripForm,
         AddMode, MapClick (41, - 73), Submit 2000 tripStamp hikeForm,
         Detail (JNum 1000), Delete True, Import (Inr (JArr [twinMemory]))]
        emptyAtlas"
    by (simp add: ids_def js_values methods examples)
  from ids_stay_distinct [OF a b] a b show ?thesis by simp
qed

text \<open>
  Against C3 as the specification states it, for every import: a file with two
  records of id 1000 is imported without complaint, and both are in the collection.
\<close>

theorem import_shares_id_counterexample:
  "distinct (ids (memories emptyAtlas))
   \<and> \<not> distinct (ids (memories (run demoHost [Import (Inr (JArr [tripMemory, twinMemory]))]
                                   emptyAtlas)))"
  by (simp add: ids_def js_values methods examples)

section \<open>The marker cache and the collection\<close>

lemma keys_update: "fst ` set (AList.update k v al) = insert k (fst ` set al)"
  by (simp add: dom_update)

lemma addPinToMap_Ok_pins:
  assumes "addPinToMap H m s = Ok s'"
  shows "\<exists>mk. pins s' = AList.update (field ''id'' m) mk (pins s)"
  using assms
  by (simp add: addPinToMap_def Let_def split: if_splits sum.splits) auto

lemma addPinToMap_Ok:
  assumes "addPinToMap H m s = Ok s'"
  shows "\<not> nullish m" and "memories s' = memories s"
    and "fst ` set (pins s') = insert (field ''id'' m) (fst ` set (pins s))"
proof -
  from assms show "\<not> nullish m"
    by (simp add: addPinToMap_def split: if_splits)
  from addPinToMap_memories [of H m s] assms show "memories s' = memories s"
    by simp
  from addPinToMap_Ok_pins [OF assms]
  obtain mk where "pins s' = AList.update (field ''id'' m) mk (pins s)" ..
  then show "fst ` set (pins s') = insert (field ''id'' m) (fst ` set (pins s))"
    by (simp only: keys_update)
qed

lemma addPins_Ok:
  "addPins H ms s = Ok s' \<Longrightarrow>
     (\<forall>m\<in>set ms. \<not> nullish m) \<and> memories s' = memories s
     \<and> fst ` set (pins s') = fst ` set (pins s) \<union> field ''id'' ` set ms"
proof (induction ms arbitrary: s)
  case Nil
  then show ?case by simp
next
  case (Cons m ms)
  from Cons.prems obtain s1 where first: "addPinToMap H m s = Ok s1"
    and rest: "addPins H ms s1 = Ok s'"
    by (cases "addPinToMap H m s") simp_all
  from addPinToMap_Ok [OF first] Cons.IH [OF rest] show ?case by auto
qed

lemma finish_Ok:
  "andThen (addPinToMap H m s) (\<lambda>s3. Ok (showToast n (closeModal s3))) = Ok s'
   \<Longrightarrow> \<exists>s3. addPinToMap H m s = Ok s3 \<and> s' = showToast n (closeModal s3)"
  by (cases "addPinToMap H m s") auto

lemma keys_delete: "fst ` set (AList.delete k al) = fst ` set al - {k}"
proof -
  have "set (map fst (AList.delete k al)) = set (map fst al) - {k}"
    by (simp only: delete_keys set_removeAll)
  then show ?thesis by simp
qed

lemma set_take_drop:
  assumes "distinct xs" and "i < length xs"
  shows "set (take i xs @ drop (Suc i) xs) = set xs - {xs ! i}"
proof -
  from assms(2) have split: "xs = take i xs @ xs ! i # drop (Suc i) xs"
    by (rule id_take_nth_drop)
  with assms(1) have "distinct (take i xs @ xs ! i # drop (Suc i) xs)"
    by simp
  then have "xs ! i \<notin> set (take i xs @ drop (Suc i) xs)"
    by auto
  moreover from split have "set xs = insert (xs ! i) (set (take i xs @ drop (Suc i) xs))"
    by (metis Un_insert_right list.simps(15) set_append)
  ultimately show ?thesis by auto
qed


lemma showToast_pins [simp]: "pins (showToast n s) = pins s"
  by (simp add: showToast_def)

lemma saveToStorage_pins [simp]: "pins (saveToStorage H s) = pins s"
  by (simp add: saveToStorage_def)

lemma closeModal_frame [simp]:
  "memories (closeModal s) = memories s" "pins (closeModal s) = pins s"
  by (simp_all add: closeModal_def)

lemma finish_Ok_shape:
  assumes "andThen (addPinToMap H m s) (\<lambda>s3. Ok (showToast n (closeModal s3))) = Ok s'"
  shows "memories s' = memories s"
    and "fst ` set (pins s') = insert (field ''id'' m) (fst ` set (pins s))"
proof -
  from finish_Ok [OF assms] obtain s3 where pinned: "addPinToMap H m s = Ok s3"
    and last: "s' = showToast n (closeModal s3)"
    by blast
  from addPinToMap_Ok(2) [OF pinned] last show "memories s' = memories s"
    by simp
  from addPinToMap_Ok(3) [OF pinned] last
  show "fst ` set (pins s') = insert (field ''id'' m) (fst ` set (pins s))"
    by simp
qed

lemma newMemory_field_id [simp]: "field ''id'' (newMemory i t d e mo p c) = i"
  by (simp add: newMemory_def)

lemma saveMemory_Ok_shape:
  assumes "saveMemory H now isoNow f s = Ok s'"
  shows "(ids (memories s') = ids (memories s) \<and> fst ` set (pins s') = fst ` set (pins s))
       \<or> (\<not> editingMemory s
          \<and> ids (memories s') = ids (memories s) @ [Inr (JNum (of_int now))]
          \<and> fst ` set (pins s') = insert (JNum (of_int now)) (fst ` set (pins s)))"
proof (cases "trim (memoryTitle f) = [] \<or> memoryDate f = [] \<or> trim (memoryDescription f) = []")
  case True
  with assms have "s' = showToast AlertRequiredFields s"
    by (auto simp: saveMemory_def)
  then show ?thesis by simp
next
  case valid: False
  show ?thesis
  proof (cases "editingMemory s")
    case False
    with valid assms obtain m where
      run: "andThen (addPinToMap H m (saveToStorage H (s\<lparr>memories := memories s @ [m]\<rparr>)))
              (\<lambda>s3. Ok (showToast ToastSaved (closeModal s3))) = Ok s'"
      and m: "field ''id'' m = JNum (of_int now)" "getProp m ''id'' = Inr (JNum (of_int now))"
      by (auto simp: saveMemory_def Let_def newMemory_id split: option.splits)
    from finish_Ok_shape [OF run] m False show ?thesis by simp
  next
    case True
    with valid assms obtain m index mk where
      run: "andThen (addPinToMap H m
                       (saveToStorage H
                          (s\<lparr>memories := (case index of None \<Rightarrow> memories s
                                             | Some i \<Rightarrow> (memories s)[i := m]),
                             layers := layers s - {ref mk}\<rparr>)))
              (\<lambda>s3. Ok (showToast ToastSaved (closeModal s3))) = Ok s'"
      and m: "field ''id'' m = currentMemoryId s" "getProp m ''id'' = Inr (currentMemoryId s)"
      and index: "findIndex_id (memories s) (currentMemoryId s) = Inr index"
      and mk: "map_of (pins s) (currentMemoryId s) = Some mk"
      by (auto simp: saveMemory_def Let_def newMemory_id split: option.splits sum.splits)
    from mk have key: "currentMemoryId s \<in> fst ` set (pins s)"
      by (metis map_of_SomeD fst_conv image_eqI)
    have "ids (case index of None \<Rightarrow> memories s | Some i \<Rightarrow> (memories s)[i := m])
            = ids (memories s)"
      using index m(2) by (cases index) (simp_all add: ids_update_same)
    with finish_Ok_shape [OF run] m key show ?thesis by (simp add: insert_absorb)
  qed
qed


lemma mirrors_frame:
  "mirrors s \<Longrightarrow> memories s' = memories s \<Longrightarrow> pins s' = pins s \<Longrightarrow> mirrors s'"
  by (simp add: mirrors_def)

lemma deleteMemory_Ok_mirrors:
  assumes "mirrors s" and "deleteMemory H confirmed s = Ok s'"
  shows "mirrors s'"
proof (cases "confirmed \<and> (\<exists>i. findIndex_id (memories s) (currentMemoryId s) = Inr (Some i))")
  case False
  with assms(2) have "s' = s"
    by (auto simp: deleteMemory_def split: sum.splits option.splits if_splits)
  with assms(1) show ?thesis by simp
next
  case True
  then obtain i where found: "findIndex_id (memories s) (currentMemoryId s) = Inr (Some i)"
    and confirmed by blast
  with assms(2) have gone: "memories s' = take i (memories s) @ drop (Suc i) (memories s)"
    and keys: "pins s' = AList.delete (currentMemoryId s) (pins s)"
    by (auto simp: deleteMemory_def closeDetailModal_def split: option.splits)
  let ?xs = "ids (memories s)"
  from findIndex_id_Some [OF found] have i: "i < length ?xs" and at: "?xs ! i = Inr (currentMemoryId s)"
    by (simp_all add: ids_def)
  from assms(1) have distinct: "distinct ?xs"
    and same: "Inr ` fst ` set (pins s) = set ?xs"
    by (simp_all add: mirrors_def)
  from gone have ids': "ids (memories s') = take i ?xs @ drop (Suc i) ?xs"
    by (simp add: ids_def take_map drop_map)
  have "Inr ` fst ` set (pins s') = Inr ` fst ` set (pins s) - {Inr (currentMemoryId s)}"
    by (auto simp: keys keys_delete)
  also have "\<dots> = set ?xs - {?xs ! i}"
    by (simp add: same at)
  also have "\<dots> = set (take i ?xs @ drop (Suc i) ?xs)"
    using distinct i by (rule set_take_drop [symmetric])
  finally have "Inr ` fst ` set (pins s') = set (ids (memories s'))"
    by (simp only: ids')
  moreover from distinct have "distinct (ids (memories s'))"
    by (simp only: ids' distinct_take_drop)
  ultimately show ?thesis by (simp add: mirrors_def)
qed

lemma set_ids_not_nullish:
  "\<forall>m\<in>set ms. \<not> nullish m \<Longrightarrow> set (ids ms) = Inr ` field ''id'' ` set ms"
  by (auto simp: ids_def getProp_def)

lemma loadMemories_Ok_mirrors:
  assumes "pins s = []" and "distinct (ids (memories s))" and "loadMemories H s = Ok s'"
  shows "mirrors s'"
proof -
  from assms(3) have "addPins H (memories s) s = Ok s'"
    by (simp add: loadMemories_def)
  from addPins_Ok [OF this] assms(1)
  have "\<forall>m\<in>set (memories s). \<not> nullish m" and "memories s' = memories s"
    and "fst ` set (pins s') = field ''id'' ` set (memories s)"
    by simp_all
  with assms(2) set_ids_not_nullish [of "memories s"] show ?thesis
    by (simp add: mirrors_def)
qed

lemma importTry_Ok_array:
  assumes "importTry H parsed s = Ok s'"
  shows "\<exists>ms. parsed = Inr (JArr ms)"
proof (cases parsed)
  case (Inl e)
  with assms show ?thesis by (simp add: importTry_def)
next
  case (Inr v)
  with assms show ?thesis by (cases v) (simp_all add: importTry_def)
qed

lemma importTry_Ok_mirrors:
  assumes "fresh (Import parsed) s" and "importTry H parsed s = Ok s'"
  shows "mirrors s'"
proof -
  from importTry_Ok_array [OF assms(2)] obtain ms where array: "parsed = Inr (JArr ms)" ..
  let ?s0 = "saveToStorage H (s\<lparr>layers := layers s - ref ` snd ` set (pins s), pins := [],
                                memories := ms\<rparr>)"
  from assms(2) array
  have "andThen (loadMemories H ?s0) (\<lambda>s1. Ok (showToast (ToastImported (length ms)) s1)) = Ok s'"
    by (simp add: importTry_def)
  then obtain s1 where loaded: "loadMemories H ?s0 = Ok s1"
    and s': "s' = showToast (ToastImported (length ms)) s1"
    by (cases "loadMemories H ?s0") simp_all
  from assms(1) array have distinct: "distinct (ids (memories ?s0))"
    by simp
  have empty: "pins ?s0 = []"
    by simp
  from loadMemories_Ok_mirrors [OF empty distinct loaded] s' show ?thesis
    by (auto intro: mirrors_frame)
qed

lemma filterPins_pins [simp]: "pins (snd (filterPins H f ps n s)) = pins s"
  by (induction ps arbitrary: n s) (auto split: sum.splits bool.splits)

lemma applyFilters_pins [simp]: "pins (state_of (applyFilters H f s)) = pins s"
proof -
  have "pins (snd (filterPins H f (pins s) 0 s)) = pins s"
    by simp
  then show ?thesis
    by (cases "filterPins H f (pins s) 0 s") (auto simp: applyFilters_def split: sum.splits)
qed

lemma showMemoryDetail_pins [simp]: "pins (state_of (showMemoryDetail memoryId s)) = pins s"
  by (simp add: showMemoryDetail_def split: sum.split)

lemma editMemory_pins [simp]: "pins (state_of (editMemory s)) = pins s"
  by (simp add: editMemory_def closeDetailModal_def Let_def split: sum.split)

lemma saveMemory_Ok_mirrors:
  assumes "mirrors s" and "fresh (Submit now isoNow f) s"
    and "saveMemory H now isoNow f s = Ok s'"
  shows "mirrors s'"
proof -
  from assms(1) have distinct: "distinct (ids (memories s))"
    and same: "Inr ` (fst ` set (pins s)) = set (ids (memories s))"
    by (simp_all add: mirrors_def)
  from saveMemory_Ok_shape [OF assms(3)] show ?thesis
  proof (elim disjE conjE)
    assume "ids (memories s') = ids (memories s)"
      and "fst ` set (pins s') = fst ` set (pins s)"
    with distinct same show ?thesis by (simp add: mirrors_def)
  next
    assume create: "\<not> editingMemory s"
      and ids': "ids (memories s') = ids (memories s) @ [Inr (JNum (of_int now))]"
      and keys': "fst ` set (pins s') = insert (JNum (of_int now)) (fst ` set (pins s))"
    from create assms(2) have "Inr (JNum (of_int now)) \<notin> set (ids (memories s))"
      by simp
    with distinct same ids' keys' show ?thesis by (simp add: mirrors_def)
  qed
qed

lemma perform_Ok_mirrors:
  assumes "mirrors s" and "fresh ev s" and "perform H ev s = Ok s'"
  shows "mirrors s'"
proof (cases ev)
  case (Submit now isoNow f)
  with assms show ?thesis by (simp add: saveMemory_Ok_mirrors)
next
  case (Delete confirmed)
  with assms show ?thesis by (simp add: deleteMemory_Ok_mirrors)
next
  case (Import parsed)
  with assms show ?thesis by (simp add: importTry_Ok_mirrors)
next
  case (Detail memoryId)
  with assms(3) have "s' = state_of (showMemoryDetail memoryId s)" by simp
  with assms(1) show ?thesis by (auto intro: mirrors_frame)
next
  case Edit
  with assms(3) have "s' = state_of (editMemory s)" by simp
  with assms(1) show ?thesis by (auto intro: mirrors_frame)
next
  case (Filter f)
  with assms(3) have "s' = state_of (applyFilters H f s)" by simp
  with assms(1) show ?thesis by (auto intro: mirrors_frame)
next
  case AddMode
  with assms(3) have "memories s' = memories s" and "pins s' = pins s"
    by (auto simp: addMemoryMode_def)
  with assms(1) show ?thesis by (auto intro: mirrors_frame)
next
  case (MapClick p)
  with assms(3) have "memories s' = memories s" and "pins s' = pins s"
    by (auto simp: mapClick_def createMemoryAt_def)
  with assms(1) show ?thesis by (auto intro: mirrors_frame)
next
  case CloseDetail
  with assms(3) have "memories s' = memories s" and "pins s' = pins s"
    by (auto simp: closeDetailModal_def)
  with assms(1) show ?thesis by (auto intro: mirrors_frame)
next
  case CloseForm
  with assms(3) have "memories s' = memories s" and "pins s' = pins s"
    by auto
  with assms(1) show ?thesis by (auto intro: mirrors_frame)
qed

lemma find_id_present:
  assumes "\<forall>e. Inl e \<notin> set (ids ms)" and "Inr x \<in> set (ids ms)"
  shows "\<exists>m\<in>set ms. find_id ms x = Inr m \<and> getProp m ''id'' = Inr x"
  using assms
proof (induction ms)
  case Nil
  then show ?case by (simp add: ids_def)
next
  case (Cons m ms)
  from Cons.prems(1) obtain v where v: "getProp m ''id'' = Inr v"
    by (cases "getProp m ''id''") (auto simp: ids_def)
  show ?case
  proof (cases "v = x")
    case True
    with v show ?thesis by (simp add: strictEq_def)
  next
    case False
    with v Cons.prems have "\<forall>e. Inl e \<notin> set (ids ms)" and "Inr x \<in> set (ids ms)"
      by (auto simp: ids_def)
    from Cons.IH [OF this] v False show ?thesis by (auto simp: strictEq_def)
  qed
qed

lemma mirrors_lookup:
  assumes "mirrors s" and "p \<in> set (pins s)"
  shows "\<exists>m\<in>set (memories s). find_id (memories s) (fst p) = Inr m \<and> getProp m ''id'' = Inr (fst p)"
proof -
  from assms(1) have same: "Inr ` fst ` set (pins s) = set (ids (memories s))"
    by (simp add: mirrors_def)
  have "\<forall>e. Inl e \<notin> set (ids (memories s))"
  proof
    fix e :: exn
    have "(Inl e :: exn + jsval) \<notin> Inr ` fst ` set (pins s)" by blast
    then show "Inl e \<notin> set (ids (memories s))" unfolding same .
  qed
  moreover have "Inr (fst p) \<in> set (ids (memories s))"
  proof -
    from assms(2) have "(Inr (fst p) :: exn + jsval) \<in> Inr ` fst ` set (pins s)" by blast
    then show ?thesis unfolding same .
  qed
  ultimately show ?thesis by (rule find_id_present)
qed


lemma findIndex_id_total:
  "\<forall>e. Inl e \<notin> set (ids ms) \<Longrightarrow> \<exists>r. findIndex_id ms x = Inr r"
proof (induction ms)
  case Nil
  show ?case by simp
next
  case (Cons m ms)
  from Cons.prems obtain v where v: "getProp m ''id'' = Inr v"
    by (cases "getProp m ''id''") (auto simp: ids_def)
  from Cons.prems have "\<forall>e. Inl e \<notin> set (ids ms)"
    by (simp add: ids_def)
  from Cons.IH [OF this] obtain r where "findIndex_id ms x = Inr r" ..
  with v show ?case by (cases r) simp_all
qed

lemma deleteMemory_returns:
  assumes "mirrors s"
  shows "returns (deleteMemory H confirmed s)"
proof -
  from assms have same: "Inr ` fst ` set (pins s) = set (ids (memories s))"
    by (simp add: mirrors_def)
  have "\<forall>e. Inl e \<notin> set (ids (memories s))"
  proof
    fix e :: exn
    have "(Inl e :: exn + jsval) \<notin> Inr ` fst ` set (pins s)" by blast
    then show "Inl e \<notin> set (ids (memories s))" unfolding same .
  qed
  from findIndex_id_total [OF this] obtain r
    where r: "findIndex_id (memories s) (currentMemoryId s) = Inr r" ..
  show ?thesis
  proof (cases r)
    case None
    with r show ?thesis by (simp add: deleteMemory_def)
  next
    case (Some i)
    with r findIndex_id_Some [of "memories s" "currentMemoryId s" i]
    have "i < length (memories s)"
      and "getProp (memories s ! i) ''id'' = Inr (currentMemoryId s)"
      by simp_all
    then have "ids (memories s) ! i = Inr (currentMemoryId s)" and "i < length (ids (memories s))"
      by (simp_all add: ids_def)
    then have "(Inr (currentMemoryId s) :: exn + jsval) \<in> set (ids (memories s))"
      by (metis nth_mem)
    then have "(Inr (currentMemoryId s) :: exn + jsval) \<in> Inr ` fst ` set (pins s)"
      unfolding same .
    then have "currentMemoryId s \<in> fst ` set (pins s)"
      by blast
    then obtain mk where "map_of (pins s) (currentMemoryId s) = Some mk"
      by (cases "map_of (pins s) (currentMemoryId s)") (simp_all add: map_of_eq_None_iff)
    with r Some show ?thesis by (simp add: deleteMemory_def)
  qed
qed

lemma saveMemory_create_returns:
  assumes "\<not> editingMemory s" and "currentPin s = Some (lat, lng)" and "latLngOk H lat lng"
    and "trim (memoryTitle f) \<noteq> []" and "memoryDate f \<noteq> []"
    and "trim (memoryDescription f) \<noteq> []"
    and "case selectedMood f of None \<Rightarrow> True | Some mood \<Rightarrow> stringifies mood"
  shows "returns (saveMemory H now isoNow f s)"
  using assms
  by (simp add: saveMemory_def Let_def newMemory_def addPinToMap_def createPopupContent_def
      split: option.splits)

text \<open>
  C10, as amended. Call a state mirrored when no two records share an id and the key
  set of the marker cache equals the set of ids of the collection. Every event whose
  handler returns, including the \<open>try\<close> block of an import, takes a mirrored state to
  a mirrored state, provided a creating submission comes at a time that is not yet an
  id and an imported array has no two elements with the same id. Loading a stored
  collection without shared ids into an empty cache gives a mirrored state when it
  returns. In a mirrored state the lookup that \<open>applyFilters\<close> makes for each pin
  finds a record with the id of the pin, and \<open>deleteMemory\<close> returns. A creating
  submission returns whenever the form is valid, a pin is placed, Leaflet accepts its
  coordinates and the mood converts to a string.
\<close>

theorem cache_mirrors_collection:
  "(mirrors s \<and> fresh ev s \<and> perform H ev s = Ok s' \<longrightarrow> mirrors s')
   \<and> (pins s0 = [] \<and> distinct (ids (memories s0)) \<and> loadMemories H s0 = Ok s1
      \<longrightarrow> mirrors s1)
   \<and> (mirrors s
      \<longrightarrow> (\<forall>p\<in>set (pins s). \<exists>m\<in>set (memories s).
             find_id (memories s) (fst p) = Inr m \<and> getProp m ''id'' = Inr (fst p)))
   \<and> (mirrors s \<longrightarrow> returns (deleteMemory H confirmed s))
   \<and> (\<not> editingMemory s2 \<and> currentPin s2 = Some (lat, lng) \<and> latLngOk H lat lng
      \<and> trim (memoryTitle f) \<noteq> [] \<and> memoryDate f \<noteq> []
      \<and> trim (memoryDescription f) \<noteq> []
      \<and> (case selectedMood f of None \<Rightarrow> True | Some mood \<Rightarrow> stringifies mood)
      \<longrightarrow> returns (saveMemory H now isoNow f s2))"
proof (intro conjI impI)
  assume "mirrors s \<and> fresh ev s \<and> perform H ev s = Ok s'"
  then show "mirrors s'"
    using perform_Ok_mirrors by blast
next
  assume "pins s0 = [] \<and> distinct (ids (memories s0)) \<and> loadMemories H s0 = Ok s1"
  then show "mirrors s1"
    using loadMemories_Ok_mirrors by blast
next
  assume "mirrors s"
  then show "\<forall>p\<in>set (pins s). \<exists>m\<in>set (memories s).
               find_id (memories s) (fst p) = Inr m \<and> getProp m ''id'' = Inr (fst p)"
    using mirrors_lookup by blast
next
  assume "mirrors s"
  then show "returns (deleteMemory H confirmed s)"
    by (rule deleteMemory_returns)
next
  assume "\<not> editingMemory s2 \<and> currentPin s2 = Some (lat, lng) \<and> latLngOk H lat lng
      \<and> trim (memoryTitle f) \<noteq> [] \<and> memoryDate f \<noteq> []
      \<and> trim (memoryDescription f) \<noteq> []
      \<and> (case selectedMood f of None \<Rightarrow> True | Some mood \<Rightarrow> stringifies mood)"
  then show "returns (saveMemory H now isoNow f s2)"
    using saveMemory_create_returns by blast
qed

theorem cache_mirrors_collection_witness:
  "mirrors detailAtlas \<and> fresh (Delete True) detailAtlas
   \<and> perform demoHost (Delete True) detailAtlas
       = Ok (tripAtlas\<lparr>memories := [], pins := [], layers := {}, storage := Some [],
                       notices := [ToastSaved, ToastDeleted]\<rparr>)
   \<and> mirrors (tripAtlas\<lparr>memories := [], pins := [], layers := {}, storage := Some [],
                         notices := [ToastSaved, ToastDeleted]\<rparr>)
   \<and> pins storedAtlas = [] \<and> distinct (ids (memories storedAtlas))
   \<and> loadMemories demoHost storedAtlas
       = Ok (storedAtlas\<lparr>pins := [(JNum 1000, tripMarker)], layers := {0}, nextRef := 1\<rparr>)
   \<and> mirrors (storedAtlas\<lparr>pins := [(JNum 1000, tripMarker)], layers := {0}, nextRef := 1\<rparr>)
   \<and> find_id (memories detailAtlas) (JNum 1000) = Inr tripMemory
   \<and> returns (deleteMemory demoHost True detailAtlas)
   \<and> \<not> editingMemory (createMemoryAt (41, - 73) tripAtlas)
   \<and> currentPin (createMemoryAt (41, - 73) tripAtlas) = Some (JNum 41, JNum (- 73))
   \<and> latLngOk demoHost (JNum 41) (JNum (- 73))
   \<and> trim (memoryTitle hikeForm) \<noteq> [] \<and> memoryDate hikeForm \<noteq> []
   \<and> trim (memoryDescription hikeForm) \<noteq> []
   \<and> returns (saveMemory demoHost 2000 tripStamp hikeForm (createMemoryAt (41, - 73) tripAtlas))"
proof -
  let ?gone = "tripAtlas\<lparr>memories := [], pins := [], layers := {}, storage := Some [],
                         notices := [ToastSaved, ToastDeleted]\<rparr>"
  let ?loaded = "storedAtlas\<lparr>pins := [(JNum 1000, tripMarker)], layers := {0}, nextRef := 1\<rparr>"
  let ?pinned = "createMemoryAt (41, - 73) tripAtlas"
  have a: "mirrors detailAtlas"
    by (simp add: mirrors_def ids_def js_values examples)
  have b: "fresh (Delete True) detailAtlas"
    by simp
  have c: "perform demoHost (Delete True) detailAtlas = Ok ?gone"
    by (simp add: js_values methods examples AList.delete_eq)
  have d: "pins storedAtlas = []" and e: "distinct (ids (memories storedAtlas))"
    by (simp_all add: ids_def js_values examples)
  have g: "loadMemories demoHost storedAtlas = Ok ?loaded"
    by (simp add: js_values methods examples)
  have k: "\<not> editingMemory ?pinned" and l: "currentPin ?pinned = Some (JNum 41, JNum (- 73))"
    and m: "latLngOk demoHost (JNum 41) (JNum (- 73))"
    by (simp_all add: createMemoryAt_def tripAtlas_def demoHost_def)
  have n: "trim (memoryTitle hikeForm) \<noteq> []" and o: "memoryDate hikeForm \<noteq> []"
    and p: "trim (memoryDescription hikeForm) \<noteq> []"
    and q: "case selectedMood hikeForm of None \<Rightarrow> True | Some mood \<Rightarrow> stringifies mood"
    by (simp_all add: hikeForm_def js_def trim_def isWhiteSpace_def)
  note all = cache_mirrors_collection [where s = detailAtlas and ev = "Delete True"
      and H = demoHost and s' = ?gone and ?s0.0 = storedAtlas and ?s1.0 = ?loaded
      and confirmed = True and ?s2.0 = ?pinned and lat = "JNum 41" and lng = "JNum (- 73)"
      and f = hikeForm and now = 2000 and isoNow = tripStamp]
  from all a b c have h: "mirrors ?gone"
    by blast
  from all d e g have i: "mirrors ?loaded"
    by blast
  from all a have "\<forall>p\<in>set (pins detailAtlas). \<exists>m\<in>set (memories detailAtlas).
      find_id (memories detailAtlas) (fst p) = Inr m \<and> getProp m ''id'' = Inr (fst p)"
    by blast
  then have j: "find_id (memories detailAtlas) (JNum 1000) = Inr tripMemory"
    by (simp add: js_values examples)
  from all a have r: "returns (deleteMemory demoHost True detailAtlas)"
    by blast
  from all k l m n o p q
  have s: "returns (saveMemory demoHost 2000 tripStamp hikeForm ?pinned)"
    by blast
  from a b c h d e g i j r k l m n o p s show ?thesis
    by (intro conjI)
qed

text \<open>
  Against C10 as the specification states it, after every operation: import a file with
  two records of id 1000, open the detail view of 1000 and confirm the deletion. All
  three handlers return. The deletion removes the one cache key and the first record;
  the second record stays, with no key for its id.
\<close>

theorem delete_after_twin_import_counterexample:
  "perform demoHost (Import (Inr (JArr [tripMemory, twinMemory]))) emptyAtlas = Ok twinAtlas
   \<and> perform demoHost (Detail (JNum 1000)) twinAtlas
       = Ok (twinAtlas\<lparr>currentMemoryId := JNum 1000\<rparr>)
   \<and> perform demoHost (Delete True) (twinAtlas\<lparr>currentMemoryId := JNum 1000\<rparr>)
       = Ok bereftAtlas
   \<and> (Inr ` fst ` set (pins bereftAtlas) :: (exn + jsval) set)
       \<noteq> set (ids (memories bereftAtlas))"
proof (intro conjI)
  show "perform demoHost (Import (Inr (JArr [tripMemory, twinMemory]))) emptyAtlas = Ok twinAtlas"
    by (simp add: twinAtlas_def js_values methods examples)
  show "perform demoHost (Detail (JNum 1000)) twinAtlas
          = Ok (twinAtlas\<lparr>currentMemoryId := JNum 1000\<rparr>)"
    by (simp add: twinAtlas_imported js_values methods examples)
  show "perform demoHost (Delete True) (twinAtlas\<lparr>currentMemoryId := JNum 1000\<rparr>)
          = Ok bereftAtlas"
    by (simp add: twinAtlas_imported js_values methods examples AList.delete_eq insert_Diff_if)
  show "(Inr ` fst ` set (pins bereftAtlas) :: (exn + jsval) set)
          \<noteq> set (ids (memories bereftAtlas))"
    by (simp add: ids_def js_values examples)
qed

section \<open>Dates as strings and as days\<close>

lemma lex_base:
  fixes a c u v B :: nat
  assumes "u < B" and "v < B"
  shows "(a * B + u < c * B + v) = (a < c \<or> a = c \<and> u < v)"
    and "(a * B + u = c * B + v) = (a = c \<and> u = v)"
proof -
  have up: "x * B + y < z * B + w" if "x < z" "y < B" for x y z w :: nat
  proof -
    from that(1) have "Suc x * B \<le> z * B"
      by (intro mult_le_mono1) simp
    then have "B + x * B \<le> z * B"
      by simp
    with that(2) show ?thesis by linarith
  qed
  show "(a * B + u < c * B + v) = (a < c \<or> a = c \<and> u < v)"
  proof (cases a c rule: linorder_cases)
    case less
    with up [OF less assms(1), of v] show ?thesis by simp
  next
    case equal
    then show ?thesis by simp
  next
    case greater
    with up [OF greater assms(2), of u] show ?thesis by simp
  qed
  show "(a * B + u = c * B + v) = (a = c \<and> u = v)"
  proof (cases a c rule: linorder_cases)
    case less
    with up [OF less assms(1), of v] show ?thesis by simp
  next
    case equal
    then show ?thesis by simp
  next
    case greater
    with up [OF greater assms(2), of u] show ?thesis by simp
  qed
qed

lemma two_values:
  fixes a b c d :: nat
  assumes "b \<le> 9" "d \<le> 9"
  shows "(10 * a + b < 10 * c + d) = (a < c \<or> a = c \<and> b < d)"
    and "(10 * a + b = 10 * c + d) = (a = c \<and> b = d)"
  using assms lex_base [of b 10 d a c] by (simp_all add: mult.commute)

lemma four_values:
  fixes a b c d a' b' c' d' :: nat
  assumes "b \<le> 9" "c \<le> 9" "d \<le> 9" "b' \<le> 9" "c' \<le> 9" "d' \<le> 9"
  shows "(1000 * a + 100 * b + 10 * c + d < 1000 * a' + 100 * b' + 10 * c' + d')
         = (a < a' \<or> a = a' \<and> (b < b' \<or> b = b' \<and> (c < c' \<or> c = c' \<and> d < d')))"
    and "(1000 * a + 100 * b + 10 * c + d = 1000 * a' + 100 * b' + 10 * c' + d')
         = (a = a' \<and> b = b' \<and> c = c' \<and> d = d')"
proof -
  let ?u = "100 * b + 10 * c + d" and ?v = "100 * b' + 10 * c' + d'"
  let ?p = "10 * c + d" and ?q = "10 * c' + d'"
  from assms have small: "?u < 1000" "?v < 1000" "?p < 100" "?q < 100"
    by simp_all
  have low: "(?p < ?q) = (c < c' \<or> c = c' \<and> d < d')" "(?p = ?q) = (c = c' \<and> d = d')"
    using two_values [of d d' c c'] assms by simp_all
  have mid: "(?u < ?v) = (b < b' \<or> b = b' \<and> ?p < ?q)" "(?u = ?v) = (b = b' \<and> ?p = ?q)"
    using lex_base [OF small(3,4), of b b'] by (simp_all add: mult.commute add.assoc)
  have top: "(1000 * a + ?u < 1000 * a' + ?v) = (a < a' \<or> a = a' \<and> ?u < ?v)"
    "(1000 * a + ?u = 1000 * a' + ?v) = (a = a' \<and> ?u = ?v)"
    using lex_base [OF small(1,2), of a a'] by (simp_all add: mult.commute)
  show "(1000 * a + 100 * b + 10 * c + d < 1000 * a' + 100 * b' + 10 * c' + d')
         = (a < a' \<or> a = a' \<and> (b < b' \<or> b = b' \<and> (c < c' \<or> c = c' \<and> d < d')))"
    using top(1) mid low by (simp add: add.assoc)
  show "(1000 * a + 100 * b + 10 * c + d = 1000 * a' + 100 * b' + 10 * c' + d')
         = (a = a' \<and> b = b' \<and> c = c' \<and> d = d')"
    using top(2) mid low by (simp add: add.assoc)
qed

lemma isDigit_value:
  assumes "isDigit c"
  obtains k where "c = 48 + k" and "k \<le> 9" and "digitValue c = k"
proof -
  from assms obtain k where "c = 48 + k"
    by (auto simp: isDigit_def le_iff_add)
  with assms that show thesis
    by (simp add: isDigit_def digitValue_def)
qed

lemma digitValue_small: "isDigit c \<Longrightarrow> digitValue c \<le> 9"
  by (erule isDigit_value) simp

lemma digitValue_order:
  assumes "isDigit a" and "isDigit b"
  shows "(digitValue a < digitValue b) = (a < b)" and "(digitValue a = digitValue b) = (a = b)"
proof -
  from assms(1) obtain k where "a = 48 + k" "digitValue a = k" by (rule isDigit_value)
  moreover from assms(2) obtain l where "b = 48 + l" "digitValue b = l" by (rule isDigit_value)
  ultimately show "(digitValue a < digitValue b) = (a < b)"
    and "(digitValue a = digitValue b) = (a = b)"
    by simp_all
qed

lemma isoDate_shape:
  assumes "isoDate a"
  obtains y1 y2 y3 y4 m1 m2 d1 d2 where "a = [y1, y2, y3, y4, 45, m1, m2, 45, d1, d2]"
    and "list_all isDigit [y1, y2, y3, y4, m1, m2, d1, d2]"
  using assms by (rule isoDate.elims) auto

lemma two_chars:
  fixes xs ys :: jsstring
  assumes "isDigit a" and "isDigit b" and "isDigit c" and "isDigit d"
  shows "(a # b # xs \<le> c # d # ys) =
    (10 * digitValue a + digitValue b < 10 * digitValue c + digitValue d
     \<or> 10 * digitValue a + digitValue b = 10 * digitValue c + digitValue d \<and> xs \<le> ys)"
  unfolding two_values [OF assms(2,4) [THEN digitValue_small]]
    digitValue_order [OF assms(1,3)] digitValue_order [OF assms(2,4)]
  by auto

lemma four_chars:
  fixes xs ys :: jsstring
  assumes "isDigit a" and "isDigit b" and "isDigit c" and "isDigit d"
    and "isDigit a'" and "isDigit b'" and "isDigit c'" and "isDigit d'"
  shows "(a # b # c # d # xs \<le> a' # b' # c' # d' # ys) =
    (1000 * digitValue a + 100 * digitValue b + 10 * digitValue c + digitValue d
       < 1000 * digitValue a' + 100 * digitValue b' + 10 * digitValue c' + digitValue d'
     \<or> 1000 * digitValue a + 100 * digitValue b + 10 * digitValue c + digitValue d
       = 1000 * digitValue a' + 100 * digitValue b' + 10 * digitValue c' + digitValue d'
       \<and> xs \<le> ys)"
  unfolding four_values [OF assms(2,3,4,6,7,8) [THEN digitValue_small]]
    digitValue_order [OF assms(1,5)] digitValue_order [OF assms(2,6)]
    digitValue_order [OF assms(3,7)] digitValue_order [OF assms(4,8)]
  by auto

text \<open>
  On dates of that form the order of the strings, code unit by code unit, is the order
  of the calendar.
\<close>

lemma isoDate_order:
  assumes "isoDate a" and "isoDate b"
  shows "(a \<le> b) = onOrBefore a b"
proof -
  from assms(1) obtain y1 y2 y3 y4 m1 m2 d1 d2 where
    a: "a = [y1, y2, y3, y4, 45, m1, m2, 45, d1, d2]"
    and "list_all isDigit [y1, y2, y3, y4, m1, m2, d1, d2]"
    by (rule isoDate_shape)
  then have da: "isDigit y1" "isDigit y2" "isDigit y3" "isDigit y4" "isDigit m1" "isDigit m2"
      "isDigit d1" "isDigit d2"
    by simp_all
  from assms(2) obtain z1 z2 z3 z4 n1 n2 e1 e2 where
    b: "b = [z1, z2, z3, z4, 45, n1, n2, 45, e1, e2]"
    and "list_all isDigit [z1, z2, z3, z4, n1, n2, e1, e2]"
    by (rule isoDate_shape)
  then have db: "isDigit z1" "isDigit z2" "isDigit z3" "isDigit z4" "isDigit n1" "isDigit n2"
      "isDigit e1" "isDigit e2"
    by simp_all
  have hyphen: "((45::nat) # xs \<le> 45 # ys) = (xs \<le> ys)" for xs ys :: jsstring
    by simp
  have day: "([d1, d2] \<le> [e1, e2]) =
      (10 * digitValue d1 + digitValue d2 \<le> 10 * digitValue e1 + digitValue e2)"
    unfolding two_chars [OF da(7,8) db(7,8)] by auto
  have "(a \<le> b) =
      (case (calendar a, calendar b) of
         ((y, m, d), (y', m', d')) \<Rightarrow> y < y' \<or> (y = y' \<and> (m < m' \<or> (m = m' \<and> d \<le> d'))))"
    unfolding a b calendar.simps prod.case
      four_chars [OF da(1-4) db(1-4)] hyphen two_chars [OF da(5,6) db(5,6)] day
    by (rule refl)
  with assms show ?thesis
    by (simp add: onOrBefore_def)
qed

section \<open>Filtering shows the records that satisfy the filter\<close>

text \<open>A filter on the mood alone, and a date range added to it.\<close>

lemma satisfies_mood_only:
  "satisfies \<lparr>moodFilter = mood, dateFromFilter = [], dateToFilter = []\<rparr> m
     = (mood = [] \<or> field ''mood'' m = JStr mood)"
  by (simp add: satisfies_def)

lemma satisfies_intersection:
  "satisfies \<lparr>moodFilter = mood, dateFromFilter = a, dateToFilter = b\<rparr> m
     = (satisfies \<lparr>moodFilter = mood, dateFromFilter = [], dateToFilter = []\<rparr> m
        \<and> satisfies \<lparr>moodFilter = [], dateFromFilter = a, dateToFilter = b\<rparr> m)"
  by (simp add: satisfies_def split: jsval.split)

text \<open>
  On a record that is not \<open>null\<close>, the value \<open>show\<close> of the loop is the predicate of the
  specification, when the filter has no date or the dates compared are dates.
\<close>

lemma showPin_satisfies:
  assumes "\<not> nullish m"
    and "dateFromFilter f = [] \<and> dateToFilter f = []
         \<or> (\<exists>d. field ''date'' m = JStr d \<and> isoDate d)"
    and "dateFromFilter f = [] \<or> isoDate (dateFromFilter f)"
    and "dateToFilter f = [] \<or> isoDate (dateToFilter f)"
  shows "showPin H f m = Inr (satisfies f m)"
proof (cases "dateFromFilter f = [] \<and> dateToFilter f = []")
  case True
  with assms(1) show ?thesis
    by (simp add: showPin_def satisfies_def strictEq_def)
next
  case False
  with assms(2) obtain d where d: "field ''date'' m = JStr d" "isoDate d"
    by blast
  have early: "onOrBefore (dateFromFilter f) d = (\<not> d < dateFromFilter f)"
    if "dateFromFilter f \<noteq> []"
  proof -
    from that assms(3) have "isoDate (dateFromFilter f)"
      by simp
    from isoDate_order [OF this d(2)] show ?thesis
      by (simp add: not_less)
  qed
  have late: "onOrBefore d (dateToFilter f) = (\<not> dateToFilter f < d)"
    if "dateToFilter f \<noteq> []"
  proof -
    from that assms(4) have "isoDate (dateToFilter f)"
      by simp
    from isoDate_order [OF d(2) this] show ?thesis
      by (simp add: not_less)
  qed
  from assms(1) d(1) early late show ?thesis
    by (auto simp: showPin_def js_lt_def js_gt_def satisfies_def strictEq_def)
qed

lemma filterPins_paint:
  assumes "\<forall>p\<in>set ps. \<exists>m. find_id (memories s) (fst p) = Inr m \<and> showPin H f m = Inr (vis p)"
  shows "filterPins H f ps n s
           = (Inr (n + length (filter vis ps)), s\<lparr>layers := paint vis ps (layers s)\<rparr>)"
  using assms
proof (induction ps arbitrary: n s)
  case Nil
  show ?case by (simp add: paint_def)
next
  case (Cons p ps)
  from Cons.prems obtain m where m: "find_id (memories s) (fst p) = Inr m"
    "showPin H f m = Inr (vis p)"
    by auto
  show ?case
  proof (cases "vis p")
    case True
    let ?s1 = "s\<lparr>layers := insert (ref (snd p)) (layers s)\<rparr>"
    from Cons.prems
    have "\<forall>q\<in>set ps. \<exists>m. find_id (memories ?s1) (fst q) = Inr m \<and> showPin H f m = Inr (vis q)"
      by simp
    from Cons.IH [OF this, of "Suc n"] m True show ?thesis
      by (simp add: paint_def)
  next
    case False
    let ?s1 = "s\<lparr>layers := layers s - {ref (snd p)}\<rparr>"
    from Cons.prems
    have "\<forall>q\<in>set ps. \<exists>m. find_id (memories ?s1) (fst q) = Inr m \<and> showPin H f m = Inr (vis q)"
      by simp
    from Cons.IH [OF this, of n] m False show ?thesis
      by (simp add: paint_def)
  qed
qed

lemma paint_other:
  "r \<notin> ref ` snd ` set ps \<Longrightarrow> (r \<in> paint vis ps L) = (r \<in> L)"
  by (induction ps arbitrary: L) (auto simp: paint_def)

lemma paint_member:
  "distinct (map (\<lambda>p. ref (snd p)) ps) \<Longrightarrow> p \<in> set ps \<Longrightarrow> (ref (snd p) \<in> paint vis ps L) = vis p"
proof (induction ps arbitrary: L)
  case Nil
  then show ?case by simp
next
  case (Cons q ps)
  let ?L = "if vis q then insert (ref (snd q)) L else L - {ref (snd q)}"
  have step: "paint vis (q # ps) L = paint vis ps ?L"
    by (simp add: paint_def)
  show ?case
  proof (cases "p = q")
    case True
    from Cons.prems(1) have "ref (snd q) \<notin> ref ` snd ` set ps"
      by (auto simp: image_image)
    from paint_other [OF this, of vis ?L] True step show ?thesis
      by simp
  next
    case False
    with Cons.prems have "distinct (map (\<lambda>p. ref (snd p)) ps)" and "p \<in> set ps"
      by simp_all
    from Cons.IH [OF this, of ?L] step show ?thesis
      by simp
  qed
qed


lemma find_id_unique:
  assumes "distinct (ids ms)" and "m \<in> set ms" and "Inl TypeError \<notin> set (ids ms)"
  shows "find_id ms (field ''id'' m) = Inr m"
  using assms
proof (induction ms)
  case Nil
  then show ?case by simp
next
  case (Cons a ms)
  from Cons.prems(3) have a: "getProp a ''id'' = Inr (field ''id'' a)"
    by (auto simp: ids_def getProp_def split: if_splits)
  show ?case
  proof (cases "m = a")
    case True
    with a show ?thesis by (simp add: strictEq_def)
  next
    case False
    with Cons.prems have rest: "m \<in> set ms" "distinct (ids ms)" "Inl TypeError \<notin> set (ids ms)"
      by (simp_all add: ids_def)
    from rest(1,3) have "getProp m ''id'' = Inr (field ''id'' m)"
      by (auto simp: ids_def getProp_def split: if_splits)
    with rest(1) have "Inr (field ''id'' m) \<in> set (ids ms)"
      by (force simp: ids_def)
    with Cons.prems(1) a have "field ''id'' a \<noteq> field ''id'' m"
      by (auto simp: ids_def)
    with a Cons.IH [OF rest(2) rest(1) rest(3)] show ?thesis
      by (simp add: strictEq_def)
  qed
qed

lemma mirrors_cached:
  assumes "mirrors s" and "m \<in> set (memories s)"
  shows "\<not> nullish m" and "find_id (memories s) (field ''id'' m) = Inr m"
    and "\<exists>mk. map_of (pins s) (field ''id'' m) = Some mk"
proof -
  from assms(1) have distinct: "distinct (ids (memories s))"
    and same: "Inr ` fst ` set (pins s) = set (ids (memories s))"
    by (simp_all add: mirrors_def)
  have none: "(Inl TypeError :: exn + jsval) \<notin> set (ids (memories s))"
  proof -
    have "(Inl TypeError :: exn + jsval) \<notin> Inr ` fst ` set (pins s)" by blast
    then show ?thesis unfolding same .
  qed
  from assms(2) have "getProp m ''id'' \<in> set (ids (memories s))"
    by (simp add: ids_def)
  with none show fine: "\<not> nullish m"
    by (auto simp: getProp_def)
  from find_id_unique [OF distinct assms(2) none]
  show "find_id (memories s) (field ''id'' m) = Inr m" .
  from fine assms(2) have "(Inr (field ''id'' m) :: exn + jsval) \<in> set (ids (memories s))"
    by (force simp: ids_def getProp_def)
  then have "(Inr (field ''id'' m) :: exn + jsval) \<in> Inr ` fst ` set (pins s)"
    unfolding same .
  then have "field ''id'' m \<in> fst ` set (pins s)"
    by blast
  then show "\<exists>mk. map_of (pins s) (field ''id'' m) = Some mk"
    by (cases "map_of (pins s) (field ''id'' m)") (simp_all add: map_of_eq_None_iff)
qed

text \<open>
  When the cached markers are different objects and every marker on the map is a cached
  one, the loop leaves on the map the markers it decided to show and no other.
\<close>

lemma paint_exact:
  assumes "distinct (map (\<lambda>p. ref (snd p)) ps)" and "L \<subseteq> ref ` snd ` set ps"
  shows "paint vis ps L = {ref (snd p) | p. p \<in> set ps \<and> vis p}"
proof (rule set_eqI)
  fix r
  show "(r \<in> paint vis ps L) = (r \<in> {ref (snd p) | p. p \<in> set ps \<and> vis p})"
  proof (cases "r \<in> ref ` snd ` set ps")
    case False
    from paint_other [OF this, of vis L] assms(2) False have "r \<notin> paint vis ps L"
      by blast
    moreover from False have "r \<notin> {ref (snd p) | p. p \<in> set ps \<and> vis p}"
      by blast
    ultimately show ?thesis
      by simp
  next
    case True
    then obtain p where p: "p \<in> set ps" "r = ref (snd p)"
      by blast
    from assms(1) have "inj_on (\<lambda>p. ref (snd p)) (set ps)"
      by (simp add: distinct_map)
    with p have only: "q = p" if "q \<in> set ps" "ref (snd q) = r" for q
      using that by (auto dest: inj_onD)
    from paint_member [OF assms(1) p(1), of vis L] p(2)
    have "(r \<in> paint vis ps L) = vis p"
      by simp
    also from p only have "\<dots> = (r \<in> {ref (snd p) | p. p \<in> set ps \<and> vis p})"
      by blast
    finally show ?thesis .
  qed
qed

text \<open>
  C5, as amended. Take a mirrored state (no two records share an id, the keys of the
  marker cache are the ids of the collection) whose cached markers are different
  objects and in which every marker on the map is a cached one. Take a filter whose
  dates, where given, are dates of the form YYYY-MM-DD, and let the date of every
  record be such a date too, unless the filter gives no date. Then \<open>applyFilters\<close>
  returns and leaves the collection and the cache as they were. The markers on the map
  afterwards are exactly the cached markers whose key is the id of a record that
  satisfies the conjunction of mood equals, date at or after \<open>from\<close> and date at or
  before \<open>to\<close>, an empty filter field counting as true; and for every record, the
  marker cached under its id is on the map exactly when the record satisfies it.
\<close>

theorem applyFilters_shows_satisfying:
  assumes "mirrors s"
    and "distinct (map (\<lambda>p. ref (snd p)) (pins s))"
    and "layers s \<subseteq> ref ` snd ` set (pins s)"
    and "dateFromFilter f = [] \<and> dateToFilter f = []
         \<or> (\<forall>m\<in>set (memories s). \<exists>d. field ''date'' m = JStr d \<and> isoDate d)"
    and "dateFromFilter f = [] \<or> isoDate (dateFromFilter f)"
    and "dateToFilter f = [] \<or> isoDate (dateToFilter f)"
  shows "\<exists>s'. applyFilters H f s = Ok s' \<and> memories s' = memories s \<and> pins s' = pins s
           \<and> layers s' = {ref (snd p) | p. p \<in> set (pins s)
                             \<and> (\<exists>m\<in>set (memories s). field ''id'' m = fst p \<and> satisfies f m)}
           \<and> (\<forall>m\<in>set (memories s). \<exists>mk. map_of (pins s) (field ''id'' m) = Some mk
                  \<and> (ref mk \<in> layers s') = satisfies f m)"
proof -
  define vis where
    "vis p = (case find_id (memories s) (fst p) of Inr m \<Rightarrow> satisfies f m | Inl e \<Rightarrow> False)"
    for p :: "jsval \<times> marker"
  have "\<forall>p\<in>set (pins s). \<exists>m. find_id (memories s) (fst p) = Inr m
                                \<and> showPin H f m = Inr (vis p)"
  proof
    fix p assume "p \<in> set (pins s)"
    from mirrors_lookup [OF assms(1) this] obtain m where m: "m \<in> set (memories s)"
      "find_id (memories s) (fst p) = Inr m"
      by blast
    from mirrors_cached(1) [OF assms(1) m(1)] have "\<not> nullish m" .
    moreover from assms(4) m(1)
    have "dateFromFilter f = [] \<and> dateToFilter f = []
          \<or> (\<exists>d. field ''date'' m = JStr d \<and> isoDate d)"
      by blast
    ultimately have "showPin H f m = Inr (satisfies f m)"
      using assms(5,6) by (rule showPin_satisfies)
    with m(2) show "\<exists>m. find_id (memories s) (fst p) = Inr m \<and> showPin H f m = Inr (vis p)"
      by (simp add: vis_def)
  qed
  from filterPins_paint [OF this, of 0]
  have loop: "filterPins H f (pins s) 0 s
                = (Inr (length (filter vis (pins s))), s\<lparr>layers := paint vis (pins s) (layers s)\<rparr>)"
    by simp
  let ?s' = "showToast (ToastShowing (length (filter vis (pins s))) (length (memories s)))
               (s\<lparr>layers := paint vis (pins s) (layers s)\<rparr>)"
  from loop have run: "applyFilters H f s = Ok ?s'"
    by (simp add: applyFilters_def)
  have layers: "layers ?s' = paint vis (pins s) (layers s)"
    by (simp add: showToast_def)
  have shown: "vis p = (\<exists>m\<in>set (memories s). field ''id'' m = fst p \<and> satisfies f m)"
    if p: "p \<in> set (pins s)" for p
  proof
    assume "vis p"
    from mirrors_lookup [OF assms(1) p] obtain m where m: "m \<in> set (memories s)"
      "find_id (memories s) (fst p) = Inr m" "getProp m ''id'' = Inr (fst p)"
      by blast
    from m(3) have "field ''id'' m = fst p"
      by (simp add: getProp_def split: if_splits)
    moreover from \<open>vis p\<close> m(2) have "satisfies f m"
      by (simp add: vis_def)
    ultimately show "\<exists>m\<in>set (memories s). field ''id'' m = fst p \<and> satisfies f m"
      using m(1) by blast
  next
    assume "\<exists>m\<in>set (memories s). field ''id'' m = fst p \<and> satisfies f m"
    then obtain m where m: "m \<in> set (memories s)" "field ''id'' m = fst p" "satisfies f m"
      by blast
    from mirrors_cached(2) [OF assms(1) m(1)] m(2,3) show "vis p"
      by (simp add: vis_def)
  qed
  have "paint vis (pins s) (layers s) = {ref (snd p) | p. p \<in> set (pins s) \<and> vis p}"
    using assms(2,3) by (rule paint_exact)
  also have "\<dots> = {ref (snd p) | p. p \<in> set (pins s)
                      \<and> (\<exists>m\<in>set (memories s). field ''id'' m = fst p \<and> satisfies f m)}"
    using shown by blast
  finally have "paint vis (pins s) (layers s) = {ref (snd p) | p. p \<in> set (pins s)
                      \<and> (\<exists>m\<in>set (memories s). field ''id'' m = fst p \<and> satisfies f m)}" .
  with layers have exact: "layers ?s' = {ref (snd p) | p. p \<in> set (pins s)
                      \<and> (\<exists>m\<in>set (memories s). field ''id'' m = fst p \<and> satisfies f m)}"
    by (rule trans)
  have each: "\<forall>m\<in>set (memories s). \<exists>mk. map_of (pins s) (field ''id'' m) = Some mk
              \<and> (ref mk \<in> layers ?s') = satisfies f m"
  proof
    fix m assume m: "m \<in> set (memories s)"
    from mirrors_cached(3) [OF assms(1) m] obtain mk
      where mk: "map_of (pins s) (field ''id'' m) = Some mk" ..
    then have "(field ''id'' m, mk) \<in> set (pins s)"
      by (rule map_of_SomeD)
    from paint_member [OF assms(2) this, of vis "layers s"]
    have "(ref mk \<in> paint vis (pins s) (layers s)) = vis (field ''id'' m, mk)"
      by simp
    also from mirrors_cached(2) [OF assms(1) m] have "\<dots> = satisfies f m"
      by (simp add: vis_def)
    finally show "\<exists>mk. map_of (pins s) (field ''id'' m) = Some mk
                    \<and> (ref mk \<in> layers ?s') = satisfies f m"
      using mk by (simp only: layers) blast
  qed
  have frame: "memories ?s' = memories s" "pins ?s' = pins s"
    by (simp_all add: showToast_def)
  from run frame exact each show ?thesis
    by (intro exI [of _ ?s'] conjI)
qed

theorem applyFilters_shows_satisfying_witness:
  "mirrors pairAtlas \<and> distinct (map (\<lambda>p. ref (snd p)) (pins pairAtlas))
   \<and> layers pairAtlas \<subseteq> ref ` snd ` set (pins pairAtlas)
   \<and> field ''date'' tripMemory = JStr (js ''2024-05-01'') \<and> isoDate (js ''2024-05-01'')
   \<and> field ''date'' hikeMemory = JStr (js ''2024-06-01'') \<and> isoDate (js ''2024-06-01'')
   \<and> isoDate (dateFromFilter smileFilter) \<and> isoDate (dateToFilter smileFilter)
   \<and> applyFilters demoHost smileFilter pairAtlas
       = Ok (pairAtlas\<lparr>layers := {0},
                       notices := [ToastSaved, ToastAddMode, ToastSaved, ToastShowing 1 2]\<rparr>)
   \<and> (ref tripMarker \<in> layers (state_of (applyFilters demoHost smileFilter pairAtlas)))
       = satisfies smileFilter tripMemory
   \<and> (ref hikeMarker \<in> layers (state_of (applyFilters demoHost smileFilter pairAtlas)))
       = satisfies smileFilter hikeMemory
   \<and> satisfies smileFilter tripMemory \<and> \<not> satisfies smileFilter hikeMemory"
proof -
  have a: "mirrors pairAtlas"
    by (simp add: mirrors_def ids_def js_values examples)
  have b: "distinct (map (\<lambda>p. ref (snd p)) (pins pairAtlas))"
    by (simp add: examples)
  have l: "layers pairAtlas \<subseteq> ref ` snd ` set (pins pairAtlas)"
    by (simp add: examples)
  have c: "field ''date'' tripMemory = JStr (js ''2024-05-01'')"
    and d: "field ''date'' hikeMemory = JStr (js ''2024-06-01'')"
    by (simp_all add: js_values examples)
  have c': "isoDate (js ''2024-05-01'')" and d': "isoDate (js ''2024-06-01'')"
    by (simp_all add: js_def isDigit_def)
  have lo: "isoDate (dateFromFilter smileFilter)" and hi: "isoDate (dateToFilter smileFilter)"
    by (simp_all add: smileFilter_def js_def isDigit_def)
  have e: "dateFromFilter smileFilter = [] \<and> dateToFilter smileFilter = []
           \<or> (\<forall>m\<in>set (memories pairAtlas). \<exists>d. field ''date'' m = JStr d \<and> isoDate d)"
    using c d c' d' by (simp add: pairAtlas_def tripAtlas_def)
  have g: "applyFilters demoHost smileFilter pairAtlas
             = Ok (pairAtlas\<lparr>layers := {0},
                             notices := [ToastSaved, ToastAddMode, ToastSaved, ToastShowing 1 2]\<rparr>)"
    by (simp add: js_values methods filtering examples insert_Diff_if)
  have h: "satisfies smileFilter tripMemory" and i: "\<not> satisfies smileFilter hikeMemory"
    by (simp_all add: satisfies_def onOrBefore_def isDigit_def digitValue_def js_values examples)
  from applyFilters_shows_satisfying [OF a b l e disjI2 [OF lo] disjI2 [OF hi], of demoHost]
  obtain s' where s': "applyFilters demoHost smileFilter pairAtlas = Ok s'"
    and shown: "\<forall>m\<in>set (memories pairAtlas). \<exists>mk.
                  map_of (pins pairAtlas) (field ''id'' m) = Some mk
                  \<and> (ref mk \<in> layers s') = satisfies smileFilter m"
    by blast
  from shown have "\<exists>mk. map_of (pins pairAtlas) (field ''id'' tripMemory) = Some mk
                     \<and> (ref mk \<in> layers s') = satisfies smileFilter tripMemory"
    by (simp add: pairAtlas_def tripAtlas_def)
  then have j: "(ref tripMarker \<in> layers s') = satisfies smileFilter tripMemory"
    by (simp add: js_values examples)
  from shown have "\<exists>mk. map_of (pins pairAtlas) (field ''id'' hikeMemory) = Some mk
                     \<and> (ref mk \<in> layers s') = satisfies smileFilter hikeMemory"
    by (simp add: pairAtlas_def tripAtlas_def)
  then have k: "(ref hikeMarker \<in> layers s') = satisfies smileFilter hikeMemory"
    by (simp add: js_values examples)
  from s' j k
  have "(ref tripMarker \<in> layers (state_of (applyFilters demoHost smileFilter pairAtlas)))
          = satisfies smileFilter tripMemory"
    and "(ref hikeMarker \<in> layers (state_of (applyFilters demoHost smileFilter pairAtlas)))
          = satisfies smileFilter hikeMemory"
    by simp_all
  with a b l c c' d d' lo hi g h i show ?thesis
    by (intro conjI)
qed

text \<open>
  Why every marker on the map has to be a cached one. In \<open>orphanAtlas\<close> the cache
  mirrors the collection, which holds the trip alone, and two markers are on the map:
  the cached one and the one the first import left behind. Under the filter on the
  other mood no record satisfies the filter, the loop takes the cached marker off, and
  the other marker stays on the map.
\<close>

lemma orphan_marker_stays:
  "memories orphanAtlas = [tripMemory] \<and> pins orphanAtlas = [(JNum 1000, tripMarker\<lparr>ref := 2\<rparr>)]
   \<and> layers orphanAtlas = {0, 2} \<and> mirrors orphanAtlas
   \<and> \<not> satisfies moonFilter tripMemory
   \<and> layers (state_of (applyFilters demoHost moonFilter orphanAtlas)) = {0}"
proof -
  have state: "orphanAtlas
      = emptyAtlas\<lparr>memories := [tripMemory], pins := [(JNum 1000, tripMarker\<lparr>ref := 2\<rparr>)],
                   layers := {0, 2}, nextRef := 3, storage := Some [tripMemory],
                   notices := [ToastImported 2, ToastImported 1]\<rparr>"
    by (simp add: orphanAtlas_def js_values methods examples insert_commute insert_Diff_if
        numeral_2_eq_2 numeral_3_eq_3)
  show ?thesis
    unfolding state
    by (simp add: mirrors_def ids_def satisfies_def js_values methods filtering examples
        insert_Diff_if)
qed

text \<open>
  Why the dates have to be of the form YYYY-MM-DD. The date of \<open>juneMemory\<close> is
  written \<open>2024-6-15\<close>. Under the filter from 1 July 2024 on, the code compares
  \<open>2024-6-15\<close> with \<open>2024-07-01\<close> as strings, finds it the greater at the sixth code
  unit, and leaves the marker on the map.
\<close>

lemma unpadded_date_shown:
  "memories juneAtlas = [juneMemory] \<and> layers juneAtlas = {0} \<and> mirrors juneAtlas
   \<and> \<not> satisfies julyFilter juneMemory
   \<and> layers (state_of (applyFilters demoHost julyFilter juneAtlas)) = {0}"
proof -
  have state: "juneAtlas
      = emptyAtlas\<lparr>memories := [juneMemory],
                   pins := [(JNum 3000,
                             \<lparr>ref = 0, latlng = (JNum 42, JNum (- 72)), iconMood = JStr smile,
                              popupContent = Popup (JStr (js ''Swim'')) (JStr smile) (js ''Lake'')
                                               (JNum 3000)\<rparr>)],
                   layers := {0}, nextRef := 1, storage := Some [juneMemory],
                   notices := [ToastImported 1]\<rparr>"
    by (simp add: juneAtlas_def juneMemory_def js_values methods examples)
  show ?thesis
    unfolding state
    by (simp add: mirrors_def ids_def satisfies_def onOrBefore_def juneMemory_def julyFilter_def
        js_values methods filtering examples)
qed

text \<open>
  Against C5 as the specification states it, for every collection: in the state left
  by the import of two
  records with id 1000, the cache holds under 1000 the marker of the second record,
  which has the mood of the filter; the lookup by id finds the first record, which
  has not, and the loop takes that marker off the map. The record that satisfies the
  filter is not shown.
\<close>

theorem applyFilters_twin_counterexample:
  "twinMemory \<in> set (memories twinAtlas) \<and> satisfies moonFilter twinMemory
   \<and> map_of (pins twinAtlas) (field ''id'' twinMemory) = Some twinMarker
   \<and> ref twinMarker \<notin> layers (state_of (applyFilters demoHost moonFilter twinAtlas))
   \<and> layers (state_of (applyFilters demoHost moonFilter twinAtlas)) = {0}"
  by (simp add: twinAtlas_imported satisfies_def js_values methods filtering examples
      insert_Diff_if)

end
